theory Spec2Isabelle
  imports Main
begin

section \<open>JavaScript strings\<close>

text \<open>
  A JavaScript string is a sequence of UTF-16 code units. A code unit is modelled by its
  number, so every string of the program is a list of numbers; a literal of the source is
  written \<open>js ''...''\<close>.
\<close>

type_synonym jsstring = "nat list"

abbreviation js :: "string \<Rightarrow> jsstring" where
  "js s \<equiv> map of_char s"

text \<open>
  \<open>String.prototype.trim\<close> removes the WhiteSpace and LineTerminator code points of
  ECMAScript: TAB, LF, VT, FF, CR, SP, NBSP, U+1680, U+2000 to U+200A, U+2028, U+2029,
  U+202F, U+205F, U+3000 and U+FEFF.
\<close>

definition isWhiteSpace :: "nat \<Rightarrow> bool" where
  "isWhiteSpace c =
     ((9 \<le> c \<and> c \<le> 13) \<or> c = 32 \<or> c = 160 \<or> c = 5760 \<or> (8192 \<le> c \<and> c \<le> 8202)
      \<or> c = 8232 \<or> c = 8233 \<or> c = 8239 \<or> c = 8287 \<or> c = 12288 \<or> c = 65279)"

definition trim :: "jsstring \<Rightarrow> jsstring" where
  "trim s = rev (dropWhile isWhiteSpace (rev (dropWhile isWhiteSpace s)))"

text \<open>\<open>s.split('\n')\<close>: the pieces between line feeds; the empty string gives one empty piece.\<close>

fun splitLines :: "jsstring \<Rightarrow> jsstring list" where
  "splitLines [] = [[]]"
| "splitLines (c # cs) =
     (if c = 10 then [] # splitLines cs
      else (case splitLines cs of
              [] \<Rightarrow> [[c]]
            | l # ls \<Rightarrow> (c # l) # ls))"

definition startsWith :: "jsstring \<Rightarrow> jsstring \<Rightarrow> bool" where
  "startsWith s p = (take (length p) s = p)"

fun includesStr :: "jsstring \<Rightarrow> jsstring \<Rightarrow> bool" where
  "includesStr [] p = (p = [])"
| "includesStr (c # cs) p = (startsWith (c # cs) p \<or> includesStr cs p)"

text \<open>The character class \<open>[A-Za-z0-9]\<close>, and \<open>[a-zA-Z0-9-]\<close> of the domain pattern.\<close>

definition isAlnum :: "nat \<Rightarrow> bool" where
  "isAlnum c = ((48 \<le> c \<and> c \<le> 57) \<or> (65 \<le> c \<and> c \<le> 90) \<or> (97 \<le> c \<and> c \<le> 122))"

definition isLabelChar :: "nat \<Rightarrow> bool" where
  "isLabelChar c = (isAlnum c \<or> c = 45)"

text \<open>
  The flag \<open>i\<close> of a pattern without the flag \<open>u\<close> compares upper-cased code units, and
  never maps a code unit above 127 to one below: against a pattern of ASCII letters it
  is ASCII case folding.
\<close>

definition toLowerAscii :: "nat \<Rightarrow> nat" where
  "toLowerAscii c = (if 65 \<le> c \<and> c \<le> 90 then c + 32 else c)"

section \<open>The patterns of extractData\<close>

text \<open>
  \<open>cleanLine.match(/`([A-Za-z0-9]{4,20})`/g)\<close>: every match, left to right, without
  overlap. At a backtick the pattern takes the longest run of alphanumerics; no shorter
  run can be followed by a backtick, so the position matches exactly when that run has 4
  to 20 code units and a backtick follows it. Scanning resumes behind a match, and at the
  next position otherwise.
\<close>

function backtickMatches :: "jsstring \<Rightarrow> jsstring list" where
  "backtickMatches [] = []"
| "backtickMatches (c # cs) =
     (if c = 96 then
        (let run = takeWhile isAlnum cs in
         case dropWhile isAlnum cs of
           [] \<Rightarrow> backtickMatches cs
         | q # after \<Rightarrow>
             if q = 96 \<and> 4 \<le> length run \<and> length run \<le> 20
             then (96 # run @ [96]) # backtickMatches after
             else backtickMatches cs)
      else backtickMatches cs)"
  by pat_completeness auto

lemma length_after_dropWhile:
  "dropWhile P cs = q # after \<Longrightarrow> length after < length cs"
proof -
  assume h: "dropWhile P cs = q # after"
  have "length (dropWhile P cs) \<le> length cs"
    by (rule length_dropWhile_le)
  with h show ?thesis by simp
qed

termination backtickMatches
  by (relation "measure length") (auto dest: length_after_dropWhile)

text \<open>
  The alternatives of \<open>(com|net|org|co\.uk|tr)\<close>, tried in this order, under the flag
  \<open>i\<close>; the result is the matched text as the line spells it.
\<close>

definition tlds :: "jsstring list" where
  "tlds = [js ''com'', js ''net'', js ''org'', js ''co.uk'', js ''tr'']"

fun matchTld :: "jsstring list \<Rightarrow> jsstring \<Rightarrow> jsstring option" where
  "matchTld [] s = None"
| "matchTld (t # ts) s =
     (if map toLowerAscii (take (length t) s) = t then Some (take (length t) s)
      else matchTld ts s)"

text \<open>
  \<open>cleanLine.match(/([a-zA-Z0-9-]+\.(com|net|org|co\.uk|tr))/i)\<close>, element 0 of the
  result: the leftmost match. From a start position the label takes the longest run of
  label characters (a shorter one is followed by a label character, never by the dot),
  then the dot and a top-level domain must follow.
\<close>

fun domainMatch :: "jsstring \<Rightarrow> jsstring option" where
  "domainMatch [] = None"
| "domainMatch (c # cs) =
     (if isLabelChar c then
        (case dropWhile isLabelChar (c # cs) of
           [] \<Rightarrow> domainMatch cs
         | q # after \<Rightarrow>
             if q = 46 then
               (case matchTld tlds after of
                  Some t \<Rightarrow> Some (takeWhile isLabelChar (c # cs) @ 46 # t)
                | None \<Rightarrow> domainMatch cs)
             else domainMatch cs)
      else domainMatch cs)"

section \<open>The Message model\<close>

text \<open>
  A document of the collection \<open>messages\<close>. \<open>docId\<close> is the field \<open>_id\<close>, \<open>isNew\<close> is
  Mongoose's flag of a document that was never saved, and \<open>docText\<close> is the field
  \<open>text\<close>. A string field that is \<open>null\<close> or \<open>undefined\<close> is \<open>None\<close>.
\<close>

record message =
  docId :: nat
  isNew :: bool
  messageId :: int
  channelId :: jsstring
  channelUsername :: jsstring
  channelName :: jsstring
  docText :: jsstring
  bonusCode :: "jsstring option"
  allBonusCodes :: "jsstring list"
  websiteUrl :: "jsstring option"
  matchedKeywords :: "jsstring list"
  messageDate :: int
  processed :: bool
  hasBonus :: bool
  hasWebsite :: bool

text \<open>A string in a condition: \<open>null\<close>, \<open>undefined\<close> and the empty string are falsy.\<close>

fun truthy :: "jsstring option \<Rightarrow> bool" where
  "truthy None = False"
| "truthy (Some s) = (s \<noteq> [])"

text \<open>\<open>text.split('\n').filter(line => line.trim().length > 0)\<close>\<close>

definition nonEmptyLines :: "jsstring \<Rightarrow> jsstring list" where
  "nonEmptyLines t = filter (\<lambda>line. length (trim line) > 0) (splitLines t)"

text \<open>The first pass: the backtick codes of every line, the backticks removed.\<close>

definition firstPass :: "jsstring list \<Rightarrow> jsstring list" where
  "firstPass lines =
     concat (map (\<lambda>line. map (filter (\<lambda>c. c \<noteq> 96)) (backtickMatches (trim line))) lines)"

definition isUrlLine :: "jsstring \<Rightarrow> bool" where
  "isUrlLine cleanLine =
     (includesStr cleanLine (js ''http'') \<or> includesStr cleanLine (js ''.com'')
      \<or> includesStr cleanLine (js ''.net'') \<or> includesStr cleanLine (js ''.org''))"

text \<open>The body of the second loop, on the pair (\<open>bonusCodes\<close>, \<open>websiteUrl\<close>).\<close>

definition secondPassLine ::
  "jsstring list \<times> jsstring option \<Rightarrow> jsstring \<Rightarrow> jsstring list \<times> jsstring option" where
  "secondPassLine st line =
     (let cleanLine = trim line; bonusCodes = fst st; url = snd st in
      if isUrlLine cleanLine then
        (if startsWith cleanLine (js ''http'') then (bonusCodes, Some cleanLine)
         else (case domainMatch cleanLine of
                 Some d \<Rightarrow> (bonusCodes, Some (js ''https://'' @ d))
               | None \<Rightarrow> (bonusCodes, url)))
      else if \<not> includesStr cleanLine [96] \<and> length bonusCodes = 0 then
        (let code = filter isAlnum cleanLine in
         if 4 \<le> length code \<and> length code \<le> 20 then (bonusCodes @ [code], url)
         else (bonusCodes, url))
      else (bonusCodes, url))"

definition secondPass ::
  "jsstring list \<Rightarrow> jsstring list \<Rightarrow> jsstring list \<times> jsstring option" where
  "secondPass codes lines = foldl secondPassLine (codes, None) lines"

text \<open>What the two loops find in a text: the candidate codes and the website.\<close>

definition scanText :: "jsstring \<Rightarrow> jsstring list \<times> jsstring option" where
  "scanText t = (let lines = nonEmptyLines (trim t) in secondPass (firstPass lines) lines)"

text \<open>\<open>messageSchema.methods.extractData\<close>\<close>

definition extractData :: "message \<Rightarrow> message" where
  "extractData this =
     (let found = scanText (docText this);
          bonusCodes = fst found;
          url = snd found;
          d1 = (if truthy url then this\<lparr>websiteUrl := url, hasWebsite := True\<rparr> else this);
          d2 = (if length bonusCodes > 0
                then d1\<lparr>bonusCode := Some (hd bonusCodes), hasBonus := True,
                        allBonusCodes := bonusCodes\<rparr>
                else d1)
      in if \<not> hasBonus d2 \<or> \<not> hasWebsite d2
         then d2\<lparr>hasBonus := False, bonusCode := None\<rparr>
         else d2)"

text \<open>
  \<open>new Message({...})\<close> with the fields both ingestion paths give: the schema's defaults
  fill the rest (\<open>hasBonus\<close> and \<open>hasWebsite\<close> false, no code, no website).
\<close>

definition newMessage ::
  "nat \<Rightarrow> int \<Rightarrow> jsstring \<Rightarrow> jsstring \<Rightarrow> jsstring \<Rightarrow> jsstring \<Rightarrow> jsstring list \<Rightarrow> int \<Rightarrow> message" where
  "newMessage oid mid cid uname cname txt kws date =
     \<lparr>docId = oid, isNew = True, messageId = mid, channelId = cid, channelUsername = uname,
      channelName = cname, docText = txt, bonusCode = None, allBonusCodes = [],
      websiteUrl = None, matchedKeywords = kws, messageDate = date, processed = False,
      hasBonus = False, hasWebsite = False\<rparr>"

section \<open>Configuration, errors and the environment\<close>

text \<open>
  \<open>channels.json\<close> is read through \<open>channelsConfig\<close> and is a parameter of the model: the
  source channels, the target groups, \<open>settings.messaging\<close> and \<open>settings.realTime\<close>.
\<close>

record channelConfig =
  chUsername :: jsstring
  chName :: jsstring
  chActive :: bool
  realTimeEnabled :: bool
  chKeywords :: "jsstring list"

record groupConfig =
  grId :: nat
  grName :: jsstring
  grUsername :: jsstring
  grActive :: bool
  messageTemplate :: jsstring

record config =
  channels :: "channelConfig list"
  targetGroups :: "groupConfig list"
  batchSize :: int
  sendDelay :: int
  onlyWithBonusCode :: bool
  minMessageLength :: int
  enabled :: bool
  heartbeatMs :: nat
  reconnectDelay :: nat

text \<open>A thrown \<open>Error\<close>: its message and, for an error of the store, its code.\<close>

datatype jserror = JSError (errMessage: jsstring) (errCode: "nat option")

text \<open>
  What the program cannot decide is given by the environment: whether the \<open>k\<close>-th call of
  the Telegram library's \<open>connect\<close> succeeds, what its \<open>k\<close>-th \<open>sendMessage\<close> raises,
  what \<open>getEntity\<close> answers, whether the \<open>k\<close>-th operation of the store fails for a reason
  of its own (the connection is lost), the text \<open>Intl.DateTimeFormat\<close> gives a date, and
  what \<open>String.prototype.toLowerCase\<close> makes of a string.
\<close>

record env =
  netConnect :: "nat \<Rightarrow> bool"
  netSend :: "nat \<Rightarrow> jserror option"
  getEntity :: "jsstring \<Rightarrow> jserror + jsstring"
  storeDown :: "nat \<Rightarrow> bool"
  formatDate :: "int \<Rightarrow> jsstring"
  toLowerCase :: "jsstring \<Rightarrow> jsstring"

text \<open>An entity of the Telegram library is known by the decimal text of its \<open>id\<close>.\<close>

record groupData =
  grEntity :: jsstring
  grConfig :: groupConfig

record channelData =
  chEntity :: jsstring
  chConfig :: channelConfig

record queueItem =
  qGroupData :: groupData
  qMessage :: jsstring
  originalMessage :: message
  timestamp :: nat

text \<open>A callback waiting in \<open>setTimeout\<close>: the retry of \<open>TelegramClient.connect\<close>.\<close>

datatype task = RetryConnect

datatype event = Sent queueItem | ConsoleError jserror | Sleep nat

text \<open>
  The state of the process: the collection of the store, the objects \<open>TelegramClient\<close>,
  \<open>MessageSender\<close>, \<open>RealTimeListener\<close> and \<open>ScraperService\<close>, the timers of the runtime,
  and what an observer sees (\<open>trace\<close>: the messages the sink accepted, the calls of
  \<open>console.error\<close> and the pauses, in order).
\<close>

record world =
  db :: "message list"
  storeCalls :: nat
  nextId :: nat
  hasClient :: bool
  isConnected :: bool
  retryCount :: int
  maxRetries :: int
  connectCalls :: nat
  sendCalls :: nat
  groupEntities :: "(nat \<times> groupData) list"
  sendQueue :: "queueItem list"
  isProcessingQueue :: bool
  sentCount :: nat
  isListening :: bool
  channelEntities :: "(jsstring \<times> channelData) list"
  heartbeatInterval :: "nat option"
  reconnectAttempts :: int
  maxReconnectAttempts :: int
  eventHandlers :: nat
  isRunning :: bool
  intervalId :: "nat option"
  clock :: nat
  intervals :: "nat list"
  nextTimer :: nat
  timeouts :: "task list"
  trace :: "event list"

definition consoleError :: "jserror \<Rightarrow> world \<Rightarrow> world" where
  "consoleError e w = w\<lparr>trace := trace w @ [ConsoleError e]\<rparr>"

text \<open>\<open>sleep(ms)\<close>: the caller resumes \<open>ms\<close> milliseconds later.\<close>

definition sleep :: "nat \<Rightarrow> world \<Rightarrow> world" where
  "sleep ms w = w\<lparr>clock := clock w + ms, trace := trace w @ [Sleep ms]\<rparr>"

text \<open>\<open>Map.prototype.set\<close>: a known key keeps its place, a new one goes last.\<close>

fun mapSet :: "'k \<Rightarrow> 'v \<Rightarrow> ('k \<times> 'v) list \<Rightarrow> ('k \<times> 'v) list" where
  "mapSet k v [] = [(k, v)]"
| "mapSet k v ((k', v') # r) = (if k = k' then (k, v) # r else (k', v') # mapSet k v r)"

section \<open>The store\<close>

text \<open>
  The collection has the unique index of \<open>_id\<close> and the one the schema declares,
  \<open>{ channelId: 1, messageId: 1 }, { unique: true }\<close>: an insert that collides with a
  stored document fails with code 11000 and stores nothing.
\<close>

definition sameKey :: "message \<Rightarrow> message \<Rightarrow> bool" where
  "sameKey a b = (channelId a = channelId b \<and> messageId a = messageId b)"

definition collides :: "message list \<Rightarrow> message \<Rightarrow> bool" where
  "collides ms d = list_ex (\<lambda>m. docId m = docId d \<or> sameKey m d) ms"

definition duplicateKey :: jserror where
  "duplicateKey = JSError (js ''E11000 duplicate key error'') (Some 11000)"

definition storeError :: jserror where
  "storeError = JSError (js ''store operation failed'') None"

definition validationError :: jserror where
  "validationError = JSError (js ''Message validation failed'') None"

definition documentNotFound :: jserror where
  "documentNotFound = JSError (js ''No document found for query'') None"

text \<open>
  The \<open>required\<close> string paths of the schema: an empty string does not satisfy them. The
  paths \<open>messageId\<close> and \<open>messageDate\<close> are required too; a message of the Telegram library
  has its number, and its date, a 32-bit count of seconds, always gives a valid \<open>Date\<close>.
\<close>

definition validate :: "message \<Rightarrow> bool" where
  "validate d = (channelId d \<noteq> [] \<and> channelUsername d \<noteq> [] \<and> channelName d \<noteq> []
                 \<and> docText d \<noteq> [])"

text \<open>\<open>Message.findOne({ messageId, channelUsername })\<close>\<close>

definition findOne :: "env \<Rightarrow> int \<Rightarrow> jsstring \<Rightarrow> world \<Rightarrow> (jserror + message option) \<times> world" where
  "findOne e mid uname w =
     (let w1 = w\<lparr>storeCalls := storeCalls w + 1\<rparr> in
      if storeDown e (storeCalls w) then (Inl storeError, w1)
      else (Inr (find (\<lambda>m. messageId m = mid \<and> channelUsername m = uname) (db w)), w1))"

text \<open>
  \<open>doc.save()\<close>. A new document is validated and inserted. A stored document is
  updated at its modified paths; the program assigns only \<open>processed\<close> between loading or
  inserting a document and saving it again, so the update writes that path; an update
  that matches no stored document is Mongoose's \<open>DocumentNotFoundError\<close>. The document
  handed back is the caller's, no longer new.
\<close>

definition save :: "env \<Rightarrow> message \<Rightarrow> world \<Rightarrow> (jserror + message) \<times> world" where
  "save e d w =
     (if isNew d then
        (if \<not> validate d then (Inl validationError, w)
         else
           (let w1 = w\<lparr>storeCalls := storeCalls w + 1\<rparr> in
            if storeDown e (storeCalls w) then (Inl storeError, w1)
            else if collides (db w) d then (Inl duplicateKey, w1)
            else (Inr (d\<lparr>isNew := False\<rparr>), w1\<lparr>db := db w @ [d\<lparr>isNew := False\<rparr>]\<rparr>)))
      else
        (let w1 = w\<lparr>storeCalls := storeCalls w + 1\<rparr> in
         if storeDown e (storeCalls w) then (Inl storeError, w1)
         else if \<not> list_ex (\<lambda>m. docId m = docId d) (db w) then (Inl documentNotFound, w1)
         else (Inr d,
               w1\<lparr>db := map (\<lambda>m. if docId m = docId d then m\<lparr>processed := processed d\<rparr> else m)
                           (db w)\<rparr>)))"

text \<open>\<open>Message.findByIdAndUpdate(id, { processed: true })\<close>: no match is no error.\<close>

definition findByIdAndUpdate :: "env \<Rightarrow> nat \<Rightarrow> world \<Rightarrow> (jserror + unit) \<times> world" where
  "findByIdAndUpdate e i w =
     (let w1 = w\<lparr>storeCalls := storeCalls w + 1\<rparr> in
      if storeDown e (storeCalls w) then (Inl storeError, w1)
      else (Inr (),
            w1\<lparr>db := map (\<lambda>m. if docId m = i then m\<lparr>processed := True\<rparr> else m) (db w)\<rparr>))"

section \<open>TelegramClient\<close>

definition connectFailed :: jserror where
  "connectFailed = JSError (js ''Failed to connect to Telegram after multiple attempts'') None"

text \<open>
  \<open>connect\<close> with \<open>handleConnectionError\<close>: a failed attempt below \<open>maxRetries\<close> schedules
  another \<open>connect\<close> ten seconds later and returns normally, still disconnected; at
  \<open>maxRetries\<close> it throws.
\<close>

definition connect :: "env \<Rightarrow> world \<Rightarrow> (jserror + unit) \<times> world" where
  "connect e w =
     (if isConnected w then (Inr (), w)
      else
        (let w1 = w\<lparr>hasClient := True, connectCalls := connectCalls w + 1\<rparr> in
         if netConnect e (connectCalls w)
         then (Inr (), w1\<lparr>isConnected := True, retryCount := 0\<rparr>)
         else
           (let w2 = consoleError (JSError (js ''Telegram connection failed'') None) w1 in
            if retryCount w2 < maxRetries w2
            then (Inr (), w2\<lparr>retryCount := retryCount w2 + 1,
                              timeouts := timeouts w2 @ [RetryConnect]\<rparr>)
            else (Inl connectFailed,
                  consoleError (JSError (js ''Max retry attempts reached'') None) w2))))"

definition disconnect :: "world \<Rightarrow> world" where
  "disconnect w = (if hasClient w \<and> isConnected w then w\<lparr>isConnected := False\<rparr> else w)"

text \<open>\<open>getChannelEntity\<close>: connects first when disconnected; every error is logged and rethrown.\<close>

definition getChannelEntity :: "env \<Rightarrow> jsstring \<Rightarrow> world \<Rightarrow> (jserror + jsstring) \<times> world" where
  "getChannelEntity e username w =
     (case (if \<not> isConnected w then connect e w else (Inr (), w)) of
        (Inl err, w1) \<Rightarrow> (Inl err, consoleError err w1)
      | (Inr u, w1) \<Rightarrow>
          (case getEntity e username of
             Inl err \<Rightarrow> (Inl err, consoleError err w1)
           | Inr ent \<Rightarrow> (Inr ent, w1)))"

section \<open>MessageSender\<close>

definition truncateText :: "jsstring \<Rightarrow> int \<Rightarrow> jsstring" where
  "truncateText t maxLength =
     (if int (length t) \<le> maxLength then t
      else take (nat (maxLength - 3)) t @ js ''...'')"

fun joinWith :: "jsstring \<Rightarrow> jsstring list \<Rightarrow> jsstring" where
  "joinWith sep [] = []"
| "joinWith sep [x] = x"
| "joinWith sep (x # y # r) = x @ sep @ joinWith sep (y # r)"

text \<open>The fallback text of a missing code or website; its last letter is U+0131.\<close>

definition notFoundText :: jsstring where
  "notFoundText = js ''Bulunamad'' @ [305]"

definition allBonusCodesText :: "message \<Rightarrow> jsstring" where
  "allBonusCodesText messageDoc =
     (if length (allBonusCodes messageDoc) > 0
      then joinWith [10] (map (\<lambda>code. 96 # code @ [96]) (allBonusCodes messageDoc))
      else if truthy (bonusCode messageDoc) then 96 # the (bonusCode messageDoc) @ [96]
      else [])"

text \<open>The object \<open>replacements\<close> of \<open>formatMessage\<close>, in the order of its keys.\<close>

definition replacements :: "env \<Rightarrow> message \<Rightarrow> (jsstring \<times> jsstring) list" where
  "replacements e messageDoc =
     [(js ''{channelName}'', channelName messageDoc),
      (js ''{bonusCode}'',
         if truthy (bonusCode messageDoc) then the (bonusCode messageDoc) else notFoundText),
      (js ''{allBonusCodes}'', allBonusCodesText messageDoc),
      (js ''{websiteUrl}'',
         if truthy (websiteUrl messageDoc) then the (websiteUrl messageDoc) else notFoundText),
      (js ''{messageText}'', truncateText (docText messageDoc) 200),
      (js ''{messageDate}'', formatDate e (messageDate messageDoc)),
      (js ''{keywords}'', joinWith (js '', '') (matchedKeywords messageDoc))]"

text \<open>
  The replacement text of \<open>String.prototype.replace\<close> for a pattern without groups:
  \<open>$$\<close> is a dollar sign, \<open>$&\<close> the match, \<open>$`\<close> the text before it, \<open>$'\<close> the text
  after it, and any other dollar sign stands for itself.
\<close>

fun expandReplacement :: "jsstring \<Rightarrow> jsstring \<Rightarrow> jsstring \<Rightarrow> jsstring \<Rightarrow> jsstring" where
  "expandReplacement (c # d # r) m pre post =
     (if c = 36 \<and> d = 36 then 36 # expandReplacement r m pre post
      else if c = 36 \<and> d = 38 then m @ expandReplacement r m pre post
      else if c = 36 \<and> d = 96 then pre @ expandReplacement r m pre post
      else if c = 36 \<and> d = 39 then post @ expandReplacement r m pre post
      else c # expandReplacement (d # r) m pre post)"
| "expandReplacement r m pre post = r"

text \<open>
  \<open>template.replace(new RegExp(escaped placeholder, 'g'), value)\<close>: every occurrence of
  the placeholder, left to right, without overlap; \<open>passed\<close> is the text already scanned.
\<close>

function replaceScan :: "jsstring \<Rightarrow> jsstring \<Rightarrow> jsstring \<Rightarrow> jsstring \<Rightarrow> jsstring" where
  "replaceScan passed p v [] = []"
| "replaceScan passed p v (c # cs) =
     (if p \<noteq> [] \<and> startsWith (c # cs) p
      then expandReplacement v p passed (drop (length p) (c # cs))
           @ replaceScan (passed @ p) p v (drop (length p) (c # cs))
      else c # replaceScan (passed @ [c]) p v cs)"
  by pat_completeness auto
termination
  by (relation "measure (\<lambda>(passed, p, v, s). length s)") auto

definition formatMessage :: "env \<Rightarrow> message \<Rightarrow> groupConfig \<Rightarrow> jsstring" where
  "formatMessage e messageDoc groupCfg =
     foldl (\<lambda>template (placeholder, v). replaceScan [] placeholder v template)
       (messageTemplate groupCfg) (replacements e messageDoc)"

text \<open>\<open>sendToTargetGroups\<close>: one job for every loaded group that is active, at the back of the queue.\<close>

definition sendToTargetGroups :: "env \<Rightarrow> message \<Rightarrow> world \<Rightarrow> world" where
  "sendToTargetGroups e messageDoc w =
     (let activeGroups = filter (\<lambda>g. grActive (grConfig g)) (map snd (groupEntities w)) in
      if length activeGroups = 0 then w
      else w\<lparr>sendQueue := sendQueue w @
                map (\<lambda>g. \<lparr>qGroupData = g, qMessage = formatMessage e messageDoc (grConfig g),
                           originalMessage = messageDoc, timestamp = clock w\<rparr>) activeGroups\<rparr>)"

text \<open>
  \<open>sendSingleMessage\<close>: connect when disconnected, hand the text to the sink, then mark
  the stored document (a Mongoose document always has its \<open>_id\<close>). Every error is logged
  and rethrown.
\<close>

definition sendSingleMessage :: "env \<Rightarrow> queueItem \<Rightarrow> world \<Rightarrow> (jserror + unit) \<times> world" where
  "sendSingleMessage e item w =
     (case (if \<not> isConnected w then connect e w else (Inr (), w)) of
        (Inl err, w1) \<Rightarrow> (Inl err, consoleError err w1)
      | (Inr u, w1) \<Rightarrow>
          (let w2 = w1\<lparr>sendCalls := sendCalls w1 + 1\<rparr> in
           case netSend e (sendCalls w1) of
             Some err \<Rightarrow> (Inl err, consoleError err w2)
           | None \<Rightarrow>
               (case findByIdAndUpdate e (docId (originalMessage item))
                       (w2\<lparr>trace := trace w2 @ [Sent item]\<rparr>) of
                  (Inl err, w3) \<Rightarrow> (Inl err, consoleError err w3)
                | (Inr u', w3) \<Rightarrow> (Inr (), w3))))"

text \<open>
  \<open>extractFloodWaitTime\<close>: the digits behind the first \<open>FLOOD_WAIT_\<close> that has some, read
  as a decimal number; 60 without a match.
\<close>

definition isDigit :: "nat \<Rightarrow> bool" where
  "isDigit c = (48 \<le> c \<and> c \<le> 57)"

fun floodMatch :: "jsstring \<Rightarrow> jsstring option" where
  "floodMatch [] = None"
| "floodMatch (c # cs) =
     (if startsWith (c # cs) (js ''FLOOD_WAIT_'')
         \<and> takeWhile isDigit (drop 11 (c # cs)) \<noteq> []
      then Some (takeWhile isDigit (drop 11 (c # cs)))
      else floodMatch cs)"

definition parseInt :: "jsstring \<Rightarrow> nat" where
  "parseInt ds = foldl (\<lambda>n d. 10 * n + (d - 48)) 0 ds"

definition extractFloodWaitTime :: "jsstring \<Rightarrow> nat" where
  "extractFloodWaitTime errorMessage =
     (case floodMatch errorMessage of Some ds \<Rightarrow> parseInt ds | None \<Rightarrow> 60)"

text \<open>
  The loop of \<open>processQueue\<close> over the batch. A sent job raises \<open>sentCount\<close> and is
  followed by the pause between messages. A failed job is logged; on a flood wait it is
  put at the front of the queue and the loop pauses, then goes on with the next job of
  the batch. Any other failure drops the job.
\<close>

fun sendBatch :: "config \<Rightarrow> env \<Rightarrow> queueItem list \<Rightarrow> world \<Rightarrow> world" where
  "sendBatch cfg e [] w = w"
| "sendBatch cfg e (item # rest) w =
     sendBatch cfg e rest
       (case sendSingleMessage e item w of
          (Inr u, w1) \<Rightarrow>
            (let w2 = w1\<lparr>sentCount := sentCount w1 + 1\<rparr> in
             if sendDelay cfg > 0 then sleep (nat (sendDelay cfg)) w2 else w2)
        | (Inl err, w1) \<Rightarrow>
            (let w2 = consoleError err w1 in
             if includesStr (errMessage err) (js ''FLOOD_WAIT'')
             then sleep (extractFloodWaitTime (errMessage err) * 1000)
                    (w2\<lparr>sendQueue := item # sendQueue w2\<rparr>)
             else w2))"

text \<open>\<open>processQueue\<close>: \<open>splice(0, batchSize)\<close> takes the batch off the front of the queue.\<close>

definition processQueue :: "config \<Rightarrow> env \<Rightarrow> world \<Rightarrow> world" where
  "processQueue cfg e w =
     (if length (sendQueue w) = 0 then w
      else
        (let n = nat (batchSize cfg);
             batch = take n (sendQueue w);
             w1 = w\<lparr>isProcessingQueue := True, sendQueue := drop n (sendQueue w)\<rparr>
         in (sendBatch cfg e batch w1)\<lparr>isProcessingQueue := False\<rparr>))"

text \<open>The callback of \<open>startQueueProcessor\<close>, run every second.\<close>

definition queueTick :: "config \<Rightarrow> env \<Rightarrow> world \<Rightarrow> world" where
  "queueTick cfg e w =
     (if \<not> isProcessingQueue w \<and> length (sendQueue w) > 0 then processQueue cfg e w else w)"

definition clearQueue :: "world \<Rightarrow> world" where
  "clearQueue w = w\<lparr>sendQueue := []\<rparr>"

text \<open>\<open>MessageSender.stop\<close>\<close>

definition stopSender :: "world \<Rightarrow> world" where
  "stopSender w = (clearQueue w)\<lparr>groupEntities := []\<rparr>"

section \<open>Messages of the source\<close>

text \<open>
  A message of the Telegram library: \<open>id\<close>, \<open>text\<close>, the decimal text of
  \<open>peerId.channelId\<close> when there is one, and \<open>date\<close> in seconds.
\<close>

record telegramMessage =
  tmId :: int
  tmText :: jsstring
  tmChannelId :: "jsstring option"
  tmDate :: int

text \<open>
  The document both ingestion paths build with \<open>new Message({...})\<close>; they differ in
  \<open>matchedKeywords\<close> only.
\<close>

definition messageDocOf ::
  "nat \<Rightarrow> telegramMessage \<Rightarrow> channelConfig \<Rightarrow> jsstring list \<Rightarrow> message" where
  "messageDocOf oid tm chan kws =
     newMessage oid (tmId tm)
       (if truthy (tmChannelId tm) then the (tmChannelId tm) else js ''unknown'')
       (chUsername chan) (chName chan) (tmText tm) kws (tmDate tm * 1000)"

section \<open>RealTimeListener\<close>

definition shouldSendToGroupsRT :: "config \<Rightarrow> message \<Rightarrow> bool" where
  "shouldSendToGroupsRT cfg messageDoc =
     (if onlyWithBonusCode cfg \<and> \<not> hasBonus messageDoc then False
      else if int (length (docText messageDoc)) < minMessageLength cfg then False
      else True)"

text \<open>
  \<open>processRealTimeMessage\<close>: build, extract, save, queue. A duplicate key (code 11000)
  ends the call without a report; any other error is logged.
\<close>

definition processRealTimeMessage ::
  "config \<Rightarrow> env \<Rightarrow> telegramMessage \<Rightarrow> channelConfig \<Rightarrow> jsstring list \<Rightarrow> world \<Rightarrow> world" where
  "processRealTimeMessage cfg e tm chan kws w =
     (let messageDoc = extractData (messageDocOf (nextId w) tm chan kws);
          w0 = w\<lparr>nextId := nextId w + 1\<rparr>
      in case save e messageDoc w0 of
           (Inl err, w1) \<Rightarrow>
             (if errCode err = Some 11000 then w1 else consoleError err w1)
         | (Inr saved, w1) \<Rightarrow>
             (if shouldSendToGroupsRT cfg saved then sendToTargetGroups e saved w1 else w1))"

text \<open>
  \<open>handleNewMessage\<close>, the handler of a pushed message: a message without text, from no
  monitored channel, or with none of the channel's keywords in its text (compared in
  lower case) is dropped; any other goes to \<open>processRealTimeMessage\<close>, which throws nothing.
\<close>

definition matchKeywords :: "env \<Rightarrow> jsstring \<Rightarrow> jsstring list \<Rightarrow> jsstring list" where
  "matchKeywords e t kws =
     filter (\<lambda>keyword. includesStr (toLowerCase e t) (toLowerCase e keyword)) kws"

definition handleNewMessage :: "config \<Rightarrow> env \<Rightarrow> telegramMessage \<Rightarrow> world \<Rightarrow> world" where
  "handleNewMessage cfg e message w =
     (if tmText message = [] then w
      else if \<not> truthy (tmChannelId message) then w
      else
        (case map_of (channelEntities w) (the (tmChannelId message)) of
           None \<Rightarrow> w
         | Some channelData \<Rightarrow>
             (let channelCfg = chConfig channelData;
                  matched = matchKeywords e (tmText message) (chKeywords channelCfg)
              in if length matched = 0 then w
                 else processRealTimeMessage cfg e message channelCfg matched w)))"

fun loadChannelEntitiesOf :: "env \<Rightarrow> channelConfig list \<Rightarrow> world \<Rightarrow> world" where
  "loadChannelEntitiesOf e [] w = w"
| "loadChannelEntitiesOf e (channel # rest) w =
     loadChannelEntitiesOf e rest
       (case getChannelEntity e (chUsername channel) w of
          (Inr ent, w1) \<Rightarrow>
            w1\<lparr>channelEntities :=
                 mapSet ent \<lparr>chEntity = ent, chConfig = channel\<rparr> (channelEntities w1)\<rparr>
        | (Inl err, w1) \<Rightarrow> consoleError err w1)"

definition loadChannelEntities :: "config \<Rightarrow> env \<Rightarrow> world \<Rightarrow> world" where
  "loadChannelEntities cfg e w =
     loadChannelEntitiesOf e
       (filter (\<lambda>channel. chActive channel \<and> realTimeEnabled channel) (channels cfg)) w"

text \<open>\<open>setInterval\<close> hands out a fresh handle; \<open>clearInterval\<close> retires it.\<close>

definition startHeartbeat :: "world \<Rightarrow> world" where
  "startHeartbeat w =
     w\<lparr>heartbeatInterval := Some (nextTimer w), intervals := intervals w @ [nextTimer w],
       nextTimer := nextTimer w + 1\<rparr>"

definition clearInterval :: "nat \<Rightarrow> world \<Rightarrow> world" where
  "clearInterval h w = w\<lparr>intervals := removeAll h (intervals w)\<rparr>"

text \<open>\<open>RealTimeListener.stop\<close>: the handlers registered with the client stay registered.\<close>

definition stopListener :: "world \<Rightarrow> world" where
  "stopListener w =
     (let w1 = w\<lparr>isListening := False\<rparr>;
          w2 = (case heartbeatInterval w1 of
                  Some h \<Rightarrow> (clearInterval h w1)\<lparr>heartbeatInterval := None\<rparr>
                | None \<Rightarrow> w1)
      in w2\<lparr>channelEntities := []\<rparr>)"

definition maxAttemptsReached :: jserror where
  "maxAttemptsReached = JSError (js ''Max reconnection attempts reached'') None"

text \<open>
  \<open>start\<close> and \<open>handleReconnect\<close> call each other: \<open>start\<close> hands every error of its body
  to \<open>handleReconnect\<close>, which stops at the maximum and otherwise counts the attempt,
  waits, stops and starts again. Neither \<open>stop\<close> nor \<open>start\<close> can throw, so the handler
  around them in \<open>handleReconnect\<close> has no run.
\<close>

function start :: "config \<Rightarrow> env \<Rightarrow> world \<Rightarrow> world"
  and handleReconnect :: "config \<Rightarrow> env \<Rightarrow> world \<Rightarrow> world" where
  "start cfg e w =
     (if \<not> enabled cfg then w
      else
        (case (if \<not> isConnected w then connect e w else (Inr (), w)) of
           (Inl err, w1) \<Rightarrow> handleReconnect cfg e (consoleError err w1)
         | (Inr u, w1) \<Rightarrow>
             startHeartbeat
               ((loadChannelEntities cfg e w1)
                  \<lparr>eventHandlers := eventHandlers (loadChannelEntities cfg e w1) + 1,
                   isListening := True, reconnectAttempts := 0\<rparr>)))"
| "handleReconnect cfg e w =
     (if reconnectAttempts w \<ge> maxReconnectAttempts w
      then stopListener (consoleError maxAttemptsReached w)
      else
        start cfg e
          (stopListener
             (sleep (reconnectDelay cfg) (w\<lparr>reconnectAttempts := reconnectAttempts w + 1\<rparr>))))"
  by pat_completeness auto

lemma connect_attempts:
  "connect e w = (r, w1) \<Longrightarrow>
     reconnectAttempts w1 = reconnectAttempts w \<and> maxReconnectAttempts w1 = maxReconnectAttempts w"
  by (auto simp: connect_def consoleError_def Let_def split: if_splits)

lemma stopListener_attempts:
  "reconnectAttempts (stopListener w) = reconnectAttempts w
   \<and> maxReconnectAttempts (stopListener w) = maxReconnectAttempts w"
  by (simp add: stopListener_def clearInterval_def Let_def split: option.splits)

termination start
  apply (relation "measure (\<lambda>x. case x of
            Inl (cfg, e, w) \<Rightarrow> 2 * nat (maxReconnectAttempts w - reconnectAttempts w) + 1
          | Inr (cfg, e, w) \<Rightarrow> 2 * nat (maxReconnectAttempts w - reconnectAttempts w))")
    apply simp
  subgoal for cfg e w x y a
    by (cases "isConnected w") (auto simp: consoleError_def dest: connect_attempts [OF sym])
  subgoal for cfg e w
    by (simp add: stopListener_attempts sleep_def)
  done

declare start.simps [simp del] handleReconnect.simps [simp del]

text \<open>The callback of the heartbeat timer.\<close>

definition heartbeatTick :: "config \<Rightarrow> env \<Rightarrow> world \<Rightarrow> world" where
  "heartbeatTick cfg e w =
     (if isListening w \<and> isConnected w then w else handleReconnect cfg e w)"

section \<open>ScraperService\<close>

definition shouldSendToGroups :: "message \<Rightarrow> bool" where
  "shouldSendToGroups messageDoc =
     (if \<not> hasBonus messageDoc \<or> \<not> hasWebsite messageDoc then False
      else if \<not> truthy (bonusCode messageDoc)
              \<or> length (trim (the (bonusCode messageDoc))) < 4 then False
      else if \<not> truthy (websiteUrl messageDoc)
              \<or> \<not> startsWith (the (websiteUrl messageDoc)) (js ''http'') then False
      else True)"

datatype result = Undefined | BonusSent

text \<open>The format check of the polling path: 2 to 5 non-empty lines, one of them a URL line.\<close>

definition bonusFormat :: "jsstring \<Rightarrow> bool" where
  "bonusFormat t =
     (let lines = nonEmptyLines (trim t) in
      \<not> (length lines < 2 \<or> length lines > 5) \<and> list_ex isUrlLine lines)"

text \<open>
  The body of \<open>processMessage\<close> inside its \<open>try\<close>. The queue holds the document by
  reference, so the later assignment of \<open>processed\<close> shows in the queued job too; nothing
  reads that field of a queued document.
\<close>

definition processMessageTry ::
  "config \<Rightarrow> env \<Rightarrow> telegramMessage \<Rightarrow> channelConfig \<Rightarrow> world \<Rightarrow> (jserror + result) \<times> world" where
  "processMessageTry cfg e tm chan w =
     (if tmText tm = [] then (Inr Undefined, w)
      else
        (case findOne e (tmId tm) (chUsername chan) w of
           (Inl err, w1) \<Rightarrow> (Inl err, w1)
         | (Inr (Some existingMessage), w1) \<Rightarrow>
             (if hasBonus existingMessage \<and> hasWebsite existingMessage
                 \<and> \<not> processed existingMessage \<and> shouldSendToGroups existingMessage
              then
                (case save e (existingMessage\<lparr>processed := True\<rparr>)
                        (sendToTargetGroups e existingMessage w1) of
                   (Inl err, w2) \<Rightarrow> (Inl err, w2)
                 | (Inr d, w2) \<Rightarrow> (Inr BonusSent, w2))
              else (Inr Undefined, w1))
         | (Inr None, w1) \<Rightarrow>
             (if \<not> bonusFormat (tmText tm) then (Inr Undefined, w1)
              else
                (case save e (extractData (messageDocOf (nextId w1) tm chan [js ''bonus_format'']))
                        (w1\<lparr>nextId := nextId w1 + 1\<rparr>) of
                   (Inl err, w2) \<Rightarrow> (Inl err, w2)
                 | (Inr messageDoc, w2) \<Rightarrow>
                     (if shouldSendToGroups messageDoc
                      then
                        (case save e (messageDoc\<lparr>processed := True\<rparr>)
                                (sendToTargetGroups e messageDoc w2) of
                           (Inl err, w3) \<Rightarrow> (Inl err, w3)
                         | (Inr d, w3) \<Rightarrow> (Inr BonusSent, w3))
                      else (Inr Undefined, w2))))))"

text \<open>
  \<open>processMessage\<close>: the handler of the \<open>try\<close> returns \<open>undefined\<close> on a duplicate key
  without a report, and logs every other error. No error leaves the function, so each
  promise \<open>processMessageBatch\<close> hands to \<open>Promise.allSettled\<close> is fulfilled.
\<close>

definition processMessage ::
  "config \<Rightarrow> env \<Rightarrow> telegramMessage \<Rightarrow> channelConfig \<Rightarrow> world \<Rightarrow> result \<times> world" where
  "processMessage cfg e tm chan w =
     (case processMessageTry cfg e tm chan w of
        (Inr r, w1) \<Rightarrow> (r, w1)
      | (Inl err, w1) \<Rightarrow>
          (if errCode err = Some 11000 then (Undefined, w1)
           else (Undefined, consoleError err w1)))"

text \<open>\<open>ScraperService.stop\<close>\<close>

definition stopService :: "world \<Rightarrow> world" where
  "stopService w =
     (let w1 = w\<lparr>isRunning := False\<rparr>;
          w2 = (case intervalId w1 of
                  Some h \<Rightarrow> (clearInterval h w1)\<lparr>intervalId := None\<rparr>
                | None \<Rightarrow> w1)
      in disconnect (stopSender (stopListener w2)))"

section \<open>Runs\<close>

text \<open>
  What the process does, one operation after the other: a message of a poll, a pushed
  message, a tick of the queue timer, a drain of the queue, a tick of the heartbeat, a
  start of the listener, the stop of the service.
\<close>

datatype operation =
    PollMessage telegramMessage channelConfig
  | PushMessage telegramMessage channelConfig "jsstring list"
  | QueueTick
  | ProcessQueue
  | HeartbeatTick
  | StartListener
  | StopService

fun applyOp :: "config \<Rightarrow> env \<Rightarrow> world \<Rightarrow> operation \<Rightarrow> world" where
  "applyOp cfg e w (PollMessage tm chan) = snd (processMessage cfg e tm chan w)"
| "applyOp cfg e w (PushMessage tm chan kws) = processRealTimeMessage cfg e tm chan kws w"
| "applyOp cfg e w QueueTick = queueTick cfg e w"
| "applyOp cfg e w ProcessQueue = processQueue cfg e w"
| "applyOp cfg e w HeartbeatTick = heartbeatTick cfg e w"
| "applyOp cfg e w StartListener = start cfg e w"
| "applyOp cfg e w StopService = stopService w"

definition runOps :: "config \<Rightarrow> env \<Rightarrow> operation list \<Rightarrow> world \<Rightarrow> world" where
  "runOps cfg e ops w = foldl (applyOp cfg e) w ops"

section \<open>Invariants of the store\<close>

text \<open>The unique index of the schema holds: no two stored documents share channel and message id.\<close>

definition docKey :: "message \<Rightarrow> jsstring \<times> int" where
  "docKey m = (channelId m, messageId m)"

definition uniqueKeys :: "message list \<Rightarrow> bool" where
  "uniqueKeys ms = distinct (map docKey ms)"

text \<open>
  A stored document after an operation: as it was, or with \<open>processed\<close> raised from false
  to true. A collection after an operation: its documents in place, each changed at most
  that way, and new documents behind them.
\<close>

definition flagStep :: "message \<Rightarrow> message \<Rightarrow> bool" where
  "flagStep m m' = (m' = m \<or> (\<not> processed m \<and> m' = m\<lparr>processed := True\<rparr>))"

definition monotoneFlags :: "message list \<Rightarrow> message list \<Rightarrow> bool" where
  "monotoneFlags ms ms' =
     (length ms \<le> length ms' \<and> list_all2 flagStep ms (take (length ms) ms'))"

section \<open>Observations\<close>

text \<open>The jobs the sink accepted, in the order of the sends.\<close>

fun sentJobs :: "event list \<Rightarrow> queueItem list" where
  "sentJobs [] = []"
| "sentJobs (Sent item # r) = item # sentJobs r"
| "sentJobs (x # r) = sentJobs r"

text \<open>
  A line of the second pass that gives a website: a URL line that starts with \<open>http\<close> or
  holds a domain the domain pattern accepts.
\<close>

definition yieldsUrl :: "jsstring \<Rightarrow> bool" where
  "yieldsUrl line =
     (isUrlLine (trim line)
      \<and> (startsWith (trim line) (js ''http'') \<or> domainMatch (trim line) \<noteq> None))"

text \<open>The time values of a valid \<open>Date\<close>: at most 8.64e15 milliseconds from the epoch.\<close>

definition validDate :: "int \<Rightarrow> bool" where
  "validDate ms = (- 8640000000000000 \<le> ms \<and> ms \<le> 8640000000000000)"

section \<open>Sample inputs\<close>

text \<open>A fresh document of channel \<open>promo\<close> with the given text, as \<open>new Message\<close> builds it.\<close>

definition sampleDoc :: "jsstring \<Rightarrow> message" where
  "sampleDoc t = newMessage 0 1 (js ''100'') (js ''promo'') (js ''Promo'') t [] 0"

text \<open>
  One source channel, one active target group, and a connected process with nothing
  stored and nothing queued. \<open>job i\<close> is a queued job for the document with \<open>_id\<close> \<open>i\<close>.
\<close>

definition sampleChannel :: channelConfig where
  "sampleChannel = \<lparr>chUsername = js ''promo'', chName = js ''Promo'', chActive = True,
                     realTimeEnabled = True, chKeywords = [js ''bonus'']\<rparr>"

definition sampleGroup :: groupConfig where
  "sampleGroup = \<lparr>grId = 1, grName = js ''Target'', grUsername = js ''target'', grActive = True,
                   messageTemplate = js ''{bonusCode} {websiteUrl}''\<rparr>"

definition sampleGroupData :: groupData where
  "sampleGroupData = \<lparr>grEntity = js ''500'', grConfig = sampleGroup\<rparr>"

definition sampleCfg :: config where
  "sampleCfg = \<lparr>channels = [sampleChannel], targetGroups = [sampleGroup], batchSize = 5,
                 sendDelay = 0, onlyWithBonusCode = True, minMessageLength = 1000,
                 enabled = True, heartbeatMs = 30000, reconnectDelay = 5000\<rparr>"

definition floodWait :: jserror where
  "floodWait = JSError (js ''A wait of 5 seconds is required (caused by FLOOD_WAIT_5)'') None"

text \<open>An environment in which every call succeeds.\<close>

definition calmEnv :: env where
  "calmEnv = \<lparr>netConnect = (\<lambda>k. True), netSend = (\<lambda>k. None),
               getEntity = (\<lambda>u. Inr (js ''100'')), storeDown = (\<lambda>k. False),
               formatDate = (\<lambda>d. js ''01.01.2025 12:00''),
               toLowerCase = map toLowerAscii\<rparr>"

text \<open>The same, but the first \<open>sendMessage\<close> is answered by a flood wait of 5 seconds.\<close>

definition floodEnv :: env where
  "floodEnv = calmEnv\<lparr>netSend := (\<lambda>k. if k = 0 then Some floodWait else None)\<rparr>"

definition initialWorld :: world where
  "initialWorld =
     \<lparr>db = [], storeCalls = 0, nextId = 0, hasClient = True, isConnected = True,
      retryCount = 0, maxRetries = 5, connectCalls = 1, sendCalls = 0,
      groupEntities = [(1, sampleGroupData)], sendQueue = [], isProcessingQueue = False,
      sentCount = 0, isListening = False, channelEntities = [], heartbeatInterval = None,
      reconnectAttempts = 0, maxReconnectAttempts = 5, eventHandlers = 0, isRunning = True,
      intervalId = None, clock = 0, intervals = [], nextTimer = 0, timeouts = [], trace = []\<rparr>"

definition job :: "nat \<Rightarrow> queueItem" where
  "job i = \<lparr>qGroupData = sampleGroupData, qMessage = [i],
            originalMessage = (sampleDoc [i])\<lparr>docId := i, messageId := int i, isNew := False\<rparr>,
            timestamp = 0\<rparr>"

definition queueWorld :: world where
  "queueWorld = initialWorld\<lparr>sendQueue := [job 65, job 66, job 67]\<rparr>"

text \<open>
  Two messages of the source: one in the bonus format (two lines, a code and a URL), and
  one that holds a code and a URL on a single line. \<open>renamedChannel\<close> is the same
  channel under a new username.
\<close>

definition promoTm :: telegramMessage where
  "promoTm = \<lparr>tmId = 7, tmText = js ''`PROMO2024`\<newline>http://example.com'',
                       tmChannelId = Some (js ''100''), tmDate = 1700000000\<rparr>"

definition oneLineTm :: telegramMessage where
  "oneLineTm = \<lparr>tmId = 8, tmText = js ''`PROMO2024` http://example.com'',
                 tmChannelId = Some (js ''100''), tmDate = 1700000000\<rparr>"

definition renamedChannel :: channelConfig where
  "renamedChannel = sampleChannel\<lparr>chUsername := js ''promo_new''\<rparr>"

text \<open>
  A process that lost its connection, in an environment where no connect succeeds: the
  client gives up at once (\<open>maxRetries\<close> 0) and the listener allows two reconnect attempts.
\<close>

definition downEnv :: env where
  "downEnv = calmEnv\<lparr>netConnect := (\<lambda>k. False)\<rparr>"

definition lostWorld :: world where
  "lostWorld = initialWorld\<lparr>isConnected := False, maxRetries := 0, maxReconnectAttempts := 2,
                 isListening := True, heartbeatInterval := Some 0, intervals := [0],
                 nextTimer := 1,
                 channelEntities := [(js ''100'', \<lparr>chEntity = js ''100'', chConfig = sampleChannel\<rparr>)]\<rparr>"

text \<open>
  A process that listens to the channel with entity 100, whose keyword is \<open>PROMO\<close>, and
  has nothing stored.
\<close>

definition listeningWorld :: world where
  "listeningWorld =
     initialWorld\<lparr>isListening := True,
       channelEntities :=
         [(js ''100'', \<lparr>chEntity = js ''100'',
                         chConfig = sampleChannel\<lparr>chKeywords := [js ''PROMO'']\<rparr>\<rparr>)]\<rparr>"

text \<open>The documents the store holds for the two messages once they were pushed.\<close>

definition storedPromo :: message where
  "storedPromo =
     \<lparr>docId = 0, isNew = False, messageId = 7, channelId = js ''100'',
      channelUsername = js ''promo'', channelName = js ''Promo'',
      docText = js ''`PROMO2024`\<newline>http://example.com'',
      bonusCode = Some (js ''PROMO2024''), allBonusCodes = [js ''PROMO2024''],
      websiteUrl = Some (js ''http://example.com''), matchedKeywords = [js ''bonus''],
      messageDate = 1700000000000, processed = False, hasBonus = True, hasWebsite = True\<rparr>"

definition storedOneLine :: message where
  "storedOneLine =
     \<lparr>docId = 0, isNew = False, messageId = 8, channelId = js ''100'',
      channelUsername = js ''promo'', channelName = js ''Promo'',
      docText = js ''`PROMO2024` http://example.com'',
      bonusCode = Some (js ''PROMO2024''), allBonusCodes = [js ''PROMO2024''],
      websiteUrl = Some (js ''https://example.com''), matchedKeywords = [js ''bonus''],
      messageDate = 1700000000000, processed = False, hasBonus = True, hasWebsite = True\<rparr>"

text \<open>
  Worlds reached from \<open>initialWorld\<close>: the message in the bonus format was pushed
  (\<open>pushedWorld\<close>) and then met by a poll (\<open>polledWorld\<close>); the one-line message was pushed
  (\<open>pushedOneLine\<close>). The sample configuration asks for 1000 code units before the push
  path forwards a message, so the pushes store and do not queue.
\<close>

definition pushedWorld :: world where
  "pushedWorld =
     processRealTimeMessage sampleCfg calmEnv promoTm sampleChannel [js ''bonus'']
       initialWorld"

definition polledWorld :: world where
  "polledWorld = snd (processMessage sampleCfg calmEnv promoTm sampleChannel pushedWorld)"

definition pushedOneLine :: world where
  "pushedOneLine =
     processRealTimeMessage sampleCfg calmEnv oneLineTm sampleChannel [js ''bonus'']
       initialWorld"

section \<open>Extraction\<close>

lemmas scan_defs = scanText_def nonEmptyLines_def trim_def isWhiteSpace_def firstPass_def
  secondPass_def secondPassLine_def isUrlLine_def startsWith_def isAlnum_def isLabelChar_def
  toLowerAscii_def tlds_def Let_def

lemma sampleDoc_text: "docText (sampleDoc t) = t"
  by (simp add: sampleDoc_def newMessage_def)

lemma sampleDoc_flags: "\<not> hasBonus (sampleDoc t) \<and> \<not> hasWebsite (sampleDoc t)"
  by (simp add: sampleDoc_def newMessage_def)

lemma extract_hasWebsite:
  "hasWebsite (extractData d) = (truthy (snd (scanText (docText d))) \<or> hasWebsite d)"
  by (simp add: extractData_def Let_def)

lemma extract_allBonusCodes:
  "fst (scanText (docText d)) \<noteq> [] \<Longrightarrow>
     allBonusCodes (extractData d) = fst (scanText (docText d))"
  by (simp add: extractData_def Let_def)

lemma secondPassLine_keeps_codes:
  "codes \<noteq> [] \<Longrightarrow> fst (secondPassLine (codes, u) line) = codes"
  by (simp add: secondPassLine_def Let_def split: option.splits)

lemma foldl_secondPassLine_keeps_codes:
  "codes \<noteq> [] \<Longrightarrow> fst (foldl secondPassLine (codes, u) lines) = codes"
proof (induction lines arbitrary: u)
  case Nil
  then show ?case by simp
next
  case (Cons line lines)
  obtain c' u' where st: "secondPassLine (codes, u) line = (c', u')"
    by (cases "secondPassLine (codes, u) line")
  with Cons.prems have "c' = codes"
    using secondPassLine_keeps_codes [of codes u line] by simp
  with st Cons show ?case by simp
qed

lemma secondPassLine_url:
  "snd st \<noteq> Some [] \<Longrightarrow> snd (secondPassLine st line) \<noteq> Some []"
  by (auto simp: secondPassLine_def startsWith_def Let_def split: option.splits)

lemma foldl_secondPassLine_url:
  "snd st \<noteq> Some [] \<Longrightarrow> snd (foldl secondPassLine st lines) \<noteq> Some []"
  by (induction lines arbitrary: st) (simp_all add: secondPassLine_url)

text \<open>The website a scan finds is never the empty string: it is found exactly when it is truthy.\<close>

lemma scanText_url_truthy: "truthy (snd (scanText t)) = (snd (scanText t) \<noteq> None)"
proof -
  have "snd (scanText t) \<noteq> Some []"
    by (simp add: scanText_def secondPass_def Let_def foldl_secondPassLine_url)
  then show ?thesis by (cases "snd (scanText t)") simp_all
qed

lemma scan_code_only: "scanText (js ''PROMO2024'') = ([js ''PROMO2024''], None)"
  by (simp add: scan_defs)

lemma scan_url_only: "scanText (js ''http://x.com'') = ([], Some (js ''http://x.com''))"
  by (simp add: scan_defs)

lemma scan_spec_example:
  "scanText (js ''`ABCD1234`\<newline>randomline\<newline>http://x.com'')
     = ([js ''ABCD1234''], Some (js ''http://x.com''))"
  by (simp add: scan_defs)

lemma firstPass_spec_example:
  "firstPass (nonEmptyLines (trim (js ''`ABCD1234`\<newline>randomline\<newline>http://x.com'')))
     = [js ''ABCD1234'']"
  by (simp add: scan_defs)

lemma secondPassLine_no_url:
  "(snd (secondPassLine st line) = None) = (snd st = None \<and> \<not> yieldsUrl line)"
  by (cases "domainMatch (trim line)") (auto simp: secondPassLine_def yieldsUrl_def Let_def)

lemma foldl_secondPassLine_no_url:
  "(snd (foldl secondPassLine st lines) = None) = (snd st = None \<and> \<not> list_ex yieldsUrl lines)"
proof (induction lines arbitrary: st)
  case Nil
  then show ?case by simp
next
  case (Cons line lines)
  have "(snd (foldl secondPassLine (secondPassLine st line) lines) = None)
          = (snd (secondPassLine st line) = None \<and> \<not> list_ex yieldsUrl lines)"
    by (rule Cons.IH)
  then show ?case
    by (simp only: foldl_Cons secondPassLine_no_url list_ex_Cons_iff) blast
qed

lemma scanText_url_iff:
  "(snd (scanText t) \<noteq> None) = list_ex yieldsUrl (nonEmptyLines (trim t))"
proof -
  have "(snd (scanText t) = None) = (\<not> list_ex yieldsUrl (nonEmptyLines (trim t)))"
    unfolding scanText_def secondPass_def Let_def
    by (simp only: foldl_secondPassLine_no_url snd_conv) simp
  then show ?thesis by (simp del: not_None_eq)
qed

lemma scan_marker_only: "scanText (js ''see http'') = ([], None)"
  by (simp add: scan_defs)

lemma scan_bare_domain: "scanText (js ''visit x.org'') = ([], Some (js ''https://x.org''))"
  by (simp add: scan_defs)

text \<open>
  C1, as the code has it. For a fresh document (both flags false, as \<open>new Message\<close>
  leaves them), when the scan finds no code or no website, \<open>extractData\<close> returns
  \<open>hasBonus = false\<close> and \<open>bonusCode = null\<close>. \<open>hasWebsite\<close> is not part of the collapse:
  it is true exactly when a website was found, that is, when some line is a URL line that
  starts with \<open>http\<close> or holds a domain the pattern accepts; a URL line that gives no
  website leaves it false.
\<close>

theorem eligibility_collapse:
  assumes "\<not> hasBonus d" and "\<not> hasWebsite d"
    and "fst (scanText (docText d)) = [] \<or> snd (scanText (docText d)) = None"
  shows "hasBonus (extractData d) = False \<and> bonusCode (extractData d) = None
       \<and> hasWebsite (extractData d) = (snd (scanText (docText d)) \<noteq> None)
       \<and> hasWebsite (extractData d) = list_ex yieldsUrl (nonEmptyLines (trim (docText d)))"
proof -
  have t: "truthy (snd (scanText (docText d))) = (snd (scanText (docText d)) \<noteq> None)"
    by (rule scanText_url_truthy)
  have w: "hasWebsite (extractData d) = (snd (scanText (docText d)) \<noteq> None)"
    using assms(2) by (simp add: extract_hasWebsite t)
  have y: "hasWebsite (extractData d) = list_ex yieldsUrl (nonEmptyLines (trim (docText d)))"
    using w by (simp only: scanText_url_iff)
  have "\<not> (fst (scanText (docText d)) \<noteq> [] \<and> truthy (snd (scanText (docText d))))"
    using assms(3) t by auto
  then have b: "hasBonus (extractData d) = False \<and> bonusCode (extractData d) = None"
    using assms(1,2) by (auto simp: extractData_def Let_def)
  from b w y show ?thesis by simp
qed

theorem eligibility_collapse_witness:
  "\<not> hasBonus (sampleDoc (js ''PROMO2024'')) \<and> \<not> hasWebsite (sampleDoc (js ''PROMO2024''))
   \<and> scanText (docText (sampleDoc (js ''PROMO2024''))) = ([js ''PROMO2024''], None)
   \<and> hasBonus (extractData (sampleDoc (js ''PROMO2024''))) = False
   \<and> bonusCode (extractData (sampleDoc (js ''PROMO2024''))) = None
   \<and> hasWebsite (extractData (sampleDoc (js ''PROMO2024''))) = False
   \<and> scanText (docText (sampleDoc (js ''visit x.org''))) = ([], Some (js ''https://x.org''))
   \<and> hasBonus (extractData (sampleDoc (js ''visit x.org''))) = False
   \<and> hasWebsite (extractData (sampleDoc (js ''visit x.org''))) = True
   \<and> isUrlLine (js ''see http'')
   \<and> scanText (docText (sampleDoc (js ''see http''))) = ([], None)
   \<and> hasWebsite (extractData (sampleDoc (js ''see http''))) = False"
proof -
  let ?d = "sampleDoc (js ''PROMO2024'')"
  let ?u = "sampleDoc (js ''visit x.org'')"
  let ?m = "sampleDoc (js ''see http'')"
  have b: "\<not> hasBonus ?d" and w: "\<not> hasWebsite ?d"
    and bu: "\<not> hasBonus ?u" and wu: "\<not> hasWebsite ?u"
    and bm: "\<not> hasBonus ?m" and wm: "\<not> hasWebsite ?m"
    by (simp_all add: sampleDoc_flags)
  have s: "scanText (docText ?d) = ([js ''PROMO2024''], None)"
    by (simp only: sampleDoc_text scan_code_only)
  have su: "scanText (docText ?u) = ([], Some (js ''https://x.org''))"
    by (simp only: sampleDoc_text scan_bare_domain)
  have sm: "scanText (docText ?m) = ([], None)"
    by (simp only: sampleDoc_text scan_marker_only)
  have h: "fst (scanText (docText ?d)) = [] \<or> snd (scanText (docText ?d)) = None"
    by (simp only: s) simp
  have hu: "fst (scanText (docText ?u)) = [] \<or> snd (scanText (docText ?u)) = None"
    by (simp only: su) simp
  have hm: "fst (scanText (docText ?m)) = [] \<or> snd (scanText (docText ?m)) = None"
    by (simp only: sm) simp
  have l: "isUrlLine (js ''see http'')"
    by (simp add: isUrlLine_def startsWith_def)
  have r1: "hasBonus (extractData ?d) = False \<and> bonusCode (extractData ?d) = None
            \<and> hasWebsite (extractData ?d) = (snd (scanText (docText ?d)) \<noteq> None)"
    using eligibility_collapse [OF b w h] by blast
  have r2: "hasBonus (extractData ?u) = False
            \<and> hasWebsite (extractData ?u) = (snd (scanText (docText ?u)) \<noteq> None)"
    using eligibility_collapse [OF bu wu hu] by blast
  have r3: "hasWebsite (extractData ?m) = (snd (scanText (docText ?m)) \<noteq> None)"
    using eligibility_collapse [OF bm wm hm] by blast
  from r1 r2 r3 b w s su sm l show ?thesis
    by simp
qed

text \<open>
  C1 as stated fails: the text \<open>http://x.com\<close> has a website and no code, and the
  returned document has \<open>hasWebsite = true\<close>.
\<close>

theorem url_without_code_counterexample:
  "scanText (docText (sampleDoc (js ''http://x.com''))) = ([], Some (js ''http://x.com''))
   \<and> hasWebsite (extractData (sampleDoc (js ''http://x.com'')))"
  by (simp only: extract_hasWebsite sampleDoc_text scan_url_only) simp

text \<open>
  C3, the code at the failing input. The text has no backtick code and two lines that
  qualify as fallback codes (no URL marker, no backtick, four alphanumerics), then a
  website; \<open>allBonusCodes\<close> holds the first line only, because the guard
  \<open>bonusCodes.length === 0\<close> also counts the fallback code just collected.
\<close>

theorem second_fallback_line_dropped:
  "\<not> isUrlLine (js ''EFGH'') \<and> \<not> includesStr (js ''EFGH'') [96]
   \<and> length (filter isAlnum (js ''EFGH'')) = 4
   \<and> firstPass (nonEmptyLines (trim (js ''ABCD\<newline>EFGH\<newline>http://x.com''))) = []
   \<and> allBonusCodes (extractData (sampleDoc (js ''ABCD\<newline>EFGH\<newline>http://x.com'')))
       = [js ''ABCD'']"
  by (simp add: sampleDoc_def newMessage_def extractData_def scan_defs)

theorem second_fallback_line_dropped_witness:
  "length (allBonusCodes (extractData (sampleDoc (js ''ABCD\<newline>EFGH\<newline>http://x.com'')))) = 1"
  using second_fallback_line_dropped by simp

text \<open>
  C7, as the code has it. When the first pass finds a backtick code, the candidate list
  is exactly the first pass's list (the codes of each line left to right, the lines in
  order), so no fallback candidate is added; the primary code is the first of them when
  the returned document has a website, and \<open>null\<close> when it has none.
\<close>

theorem backtick_precedence:
  assumes "firstPass (nonEmptyLines (trim (docText d))) \<noteq> []"
  shows "fst (scanText (docText d)) = firstPass (nonEmptyLines (trim (docText d)))
       \<and> allBonusCodes (extractData d) = firstPass (nonEmptyLines (trim (docText d)))
       \<and> bonusCode (extractData d) =
           (if hasWebsite (extractData d)
            then Some (hd (firstPass (nonEmptyLines (trim (docText d))))) else None)"
proof -
  let ?p = "firstPass (nonEmptyLines (trim (docText d)))"
  have f: "fst (scanText (docText d)) = ?p"
    using assms
    by (simp add: scanText_def secondPass_def Let_def foldl_secondPassLine_keeps_codes)
  have a: "allBonusCodes (extractData d) = ?p"
    using f assms extract_allBonusCodes [of d] by simp
  have b: "bonusCode (extractData d)
             = (if hasWebsite (extractData d) then Some (hd ?p) else None)"
    using f assms by (simp add: extractData_def Let_def)
  from f a b show ?thesis by simp
qed

theorem backtick_precedence_witness:
  "firstPass (nonEmptyLines (trim (docText
      (sampleDoc (js ''`ABCD1234`\<newline>randomline\<newline>http://x.com''))))) \<noteq> []
   \<and> allBonusCodes (extractData (sampleDoc (js ''`ABCD1234`\<newline>randomline\<newline>http://x.com'')))
       = [js ''ABCD1234'']
   \<and> bonusCode (extractData (sampleDoc (js ''`ABCD1234`\<newline>randomline\<newline>http://x.com'')))
       = Some (js ''ABCD1234'')"
proof -
  let ?d = "sampleDoc (js ''`ABCD1234`\<newline>randomline\<newline>http://x.com'')"
  have h: "firstPass (nonEmptyLines (trim (docText ?d))) \<noteq> []"
    by (simp only: sampleDoc_text firstPass_spec_example) simp
  have w: "hasWebsite (extractData ?d)"
    by (simp only: extract_hasWebsite sampleDoc_text scan_spec_example) simp
  from backtick_precedence [OF h] h w show ?thesis
    by (simp only: sampleDoc_text firstPass_spec_example) simp
qed

text \<open>
  C7 as stated fails: the text \<open>`ABCD1234`\<close> has a backtick code and no website, and
  the primary code of the returned document is \<open>null\<close>.
\<close>

theorem backtick_without_url_counterexample:
  "firstPass (nonEmptyLines (trim (docText (sampleDoc (js ''`ABCD1234`''))))) = [js ''ABCD1234'']
   \<and> bonusCode (extractData (sampleDoc (js ''`ABCD1234`''))) = None"
  by (simp add: sampleDoc_def newMessage_def extractData_def scan_defs)

text \<open>
  C9, as the code has it. A line with none of the four markers \<open>http\<close>, \<open>.com\<close>, \<open>.net\<close>,
  \<open>.org\<close> is not a URL line, whatever domain it holds: the second pass leaves the website
  as it was and takes the fallback branch, which adds the stripped line as a code when the
  line has no backtick, no code was found yet, and 4 to 20 alphanumerics remain.
\<close>

theorem unmarked_domain_is_fallback:
  assumes "\<not> includesStr (trim line) (js ''http'')"
    and "\<not> includesStr (trim line) (js ''.com'')"
    and "\<not> includesStr (trim line) (js ''.net'')"
    and "\<not> includesStr (trim line) (js ''.org'')"
  shows "\<not> isUrlLine (trim line)
       \<and> secondPassLine (codes, url) line =
           (if \<not> includesStr (trim line) [96] \<and> codes = []
               \<and> 4 \<le> length (filter isAlnum (trim line))
               \<and> length (filter isAlnum (trim line)) \<le> 20
            then ([filter isAlnum (trim line)], url) else (codes, url))"
  using assms by (simp add: secondPassLine_def isUrlLine_def Let_def)

theorem unmarked_domain_is_fallback_witness:
  "\<not> includesStr (trim (js ''example.tr'')) (js ''http'')
   \<and> \<not> includesStr (trim (js ''example.tr'')) (js ''.com'')
   \<and> \<not> includesStr (trim (js ''example.tr'')) (js ''.net'')
   \<and> \<not> includesStr (trim (js ''example.tr'')) (js ''.org'')
   \<and> domainMatch (js ''example.tr'') = Some (js ''example.tr'')
   \<and> secondPassLine ([], None) (js ''example.tr'') = ([js ''exampletr''], None)"
proof -
  have a: "\<not> includesStr (trim (js ''example.tr'')) (js ''http'')"
    and b: "\<not> includesStr (trim (js ''example.tr'')) (js ''.com'')"
    and c: "\<not> includesStr (trim (js ''example.tr'')) (js ''.net'')"
    and d: "\<not> includesStr (trim (js ''example.tr'')) (js ''.org'')"
    by (simp_all add: scan_defs)
  have m: "domainMatch (js ''example.tr'') = Some (js ''example.tr'')"
    by (simp add: scan_defs)
  have r: "(if \<not> includesStr (trim (js ''example.tr'')) [96] \<and> ([]::jsstring list) = []
               \<and> 4 \<le> length (filter isAlnum (trim (js ''example.tr'')))
               \<and> length (filter isAlnum (trim (js ''example.tr''))) \<le> 20
            then ([filter isAlnum (trim (js ''example.tr''))], None::jsstring option)
            else ([], None))
           = ([js ''exampletr''], None)"
    by (simp add: scan_defs)
  from unmarked_domain_is_fallback [OF a b c d, of "[]" None] a b c d m r show ?thesis
    by simp
qed

text \<open>
  C9 as stated fails: the only domain of the line \<open>http://example.tr\<close> ends in \<open>.tr\<close>,
  and the line is a URL line that sets the website.
\<close>

theorem tr_domain_with_scheme_counterexample:
  "domainMatch (js ''http://example.tr'') = Some (js ''example.tr'')
   \<and> isUrlLine (trim (js ''http://example.tr''))
   \<and> secondPassLine ([], None) (js ''http://example.tr'') = ([], Some (js ''http://example.tr''))"
  by (simp add: scan_defs)

lemma co_uk_line:
  "\<not> isUrlLine (js ''shop.co.uk'') \<and> domainMatch (js ''shop.co.uk'') = Some (js ''shop.co.uk'')
   \<and> scanText (js ''shop.co.uk'') = ([js ''shopcouk''], None)"
  by (simp add: scan_defs)

section \<open>Formatting\<close>

text \<open>
  C10. \<open>truncateText(text, 200)\<close> returns a text of at most 200 code units unchanged and
  otherwise its first 197 code units followed by three dots; the result has at most 200
  code units, and it is the value \<open>formatMessage\<close> puts under \<open>{messageText}\<close>.
\<close>

theorem truncateText_cap:
  "truncateText t 200 = (if length t \<le> 200 then t else take 197 t @ js ''...'')
   \<and> length (truncateText t 200) \<le> 200
   \<and> map_of (replacements e messageDoc) (js ''{messageText}'')
       = Some (truncateText (docText messageDoc) 200)"
  by (simp add: truncateText_def replacements_def)

theorem truncateText_cap_witness:
  "truncateText (replicate 250 97) 200 = replicate 197 97 @ js ''...''
   \<and> length (truncateText (replicate 250 97) 200) = 200
   \<and> truncateText (js ''short'') 200 = js ''short''"
  using truncateText_cap [of "replicate 250 97"] truncateText_cap [of "js ''short''"]
  by simp

section \<open>The delivery queue\<close>

lemma send_ok:
  "isConnected w \<Longrightarrow> netSend e (sendCalls w) = None \<Longrightarrow> \<not> storeDown e (storeCalls w) \<Longrightarrow>
   sendSingleMessage e item w =
     (Inr (), w\<lparr>sendCalls := sendCalls w + 1, trace := trace w @ [Sent item],
                storeCalls := storeCalls w + 1,
                db := map (\<lambda>m. if docId m = docId (originalMessage item)
                                then m\<lparr>processed := True\<rparr> else m) (db w)\<rparr>)"
  by (simp add: sendSingleMessage_def findByIdAndUpdate_def Let_def)

lemma send_fail:
  "isConnected w \<Longrightarrow> netSend e (sendCalls w) = Some err \<Longrightarrow>
   sendSingleMessage e item w =
     (Inl err, w\<lparr>sendCalls := sendCalls w + 1, trace := trace w @ [ConsoleError err]\<rparr>)"
  by (simp add: sendSingleMessage_def consoleError_def Let_def)

lemma sendBatch_flood_wait:
  assumes "sendSingleMessage e item w = (Inl err, w1)"
    and "includesStr (errMessage err) (js ''FLOOD_WAIT'')"
  shows "sendBatch cfg e (item # rest) w =
           sendBatch cfg e rest
             (sleep (extractFloodWaitTime (errMessage err) * 1000)
                ((consoleError err w1)\<lparr>sendQueue := item # sendQueue (consoleError err w1)\<rparr>))"
  using assms by (simp add: Let_def)

lemma flood_msg: "includesStr (errMessage floodWait) (js ''FLOOD_WAIT'')"
  by (simp add: floodWait_def startsWith_def)

lemma flood_time: "extractFloodWaitTime (errMessage floodWait) = 5"
  by (simp add: floodWait_def extractFloodWaitTime_def startsWith_def isDigit_def parseInt_def)

lemma first_drain:
  "processQueue sampleCfg floodEnv queueWorld =
     queueWorld\<lparr>sendQueue := [job 65], sendCalls := 3, storeCalls := 2, sentCount := 2,
                clock := 5000,
                trace := [ConsoleError floodWait, ConsoleError floodWait, Sleep 5000,
                          Sent (job 66), Sent (job 67)]\<rparr>"
  by (simp add: processQueue_def queueWorld_def initialWorld_def sampleCfg_def floodEnv_def calmEnv_def
       send_ok send_fail flood_msg [simplified] flood_time consoleError_def sleep_def Let_def)

lemma second_drain:
  "processQueue sampleCfg floodEnv (processQueue sampleCfg floodEnv queueWorld) =
     queueWorld\<lparr>sendQueue := [], sendCalls := 4, storeCalls := 3, sentCount := 3,
                clock := 5000,
                trace := [ConsoleError floodWait, ConsoleError floodWait, Sleep 5000,
                          Sent (job 66), Sent (job 67), Sent (job 65)]\<rparr>"
  by (simp add: first_drain) (simp add: processQueue_def queueWorld_def initialWorld_def sampleCfg_def floodEnv_def calmEnv_def
       send_ok send_fail flood_msg [simplified] flood_time consoleError_def sleep_def Let_def)

text \<open>
  C2, the code at the failing input. The queue holds the jobs 65, 66 and 67 (A, B and C),
  the batch size is 5 and the sink answers the first send with a flood wait. The first
  drain puts A back at the front of the queue and pauses 5000 ms, then goes on with the
  rest of its batch: B and C are sent in that same drain, and A only in the next one.
\<close>

theorem requeued_job_sent_last:
  "sendQueue queueWorld = [job 65, job 66, job 67]
   \<and> netSend floodEnv 0 = Some floodWait
   \<and> sendQueue (processQueue sampleCfg floodEnv queueWorld) = [job 65]
   \<and> trace (processQueue sampleCfg floodEnv queueWorld)
       = [ConsoleError floodWait, ConsoleError floodWait, Sleep 5000, Sent (job 66), Sent (job 67)]
   \<and> sentJobs (trace (processQueue sampleCfg floodEnv (processQueue sampleCfg floodEnv queueWorld)))
       = [job 66, job 67, job 65]"
proof -
  have a: "sendQueue queueWorld = [job 65, job 66, job 67]"
    by (simp add: queueWorld_def)
  have b: "netSend floodEnv 0 = Some floodWait"
    by (simp add: floodEnv_def)
  have c: "sendQueue (processQueue sampleCfg floodEnv queueWorld) = [job 65]"
    by (simp only: first_drain) simp
  have d: "trace (processQueue sampleCfg floodEnv queueWorld)
       = [ConsoleError floodWait, ConsoleError floodWait, Sleep 5000, Sent (job 66), Sent (job 67)]"
    by (simp only: first_drain) simp
  have e: "sentJobs (trace (processQueue sampleCfg floodEnv (processQueue sampleCfg floodEnv queueWorld)))
       = [job 66, job 67, job 65]"
    by (simp only: second_drain) simp
  from a b c d e show ?thesis by simp
qed

theorem requeued_job_sent_last_witness:
  "sentJobs (trace (processQueue sampleCfg floodEnv (processQueue sampleCfg floodEnv queueWorld)))
     \<noteq> [job 65, job 66, job 67]"
  using requeued_job_sent_last by (simp add: job_def)

section \<open>The reconnect controller\<close>

lemma handleReconnect_at_max:
  "maxReconnectAttempts w \<le> reconnectAttempts w \<Longrightarrow>
     handleReconnect cfg e w = stopListener (consoleError maxAttemptsReached w)"
  by (simp add: handleReconnect.simps)

lemma stopListener_fields:
  "isListening (stopListener w) = False \<and> heartbeatInterval (stopListener w) = None
   \<and> channelEntities (stopListener w) = []
   \<and> connectCalls (stopListener w) = connectCalls w
   \<and> timeouts (stopListener w) = timeouts w
   \<and> isConnected (stopListener w) = isConnected w
   \<and> reconnectAttempts (stopListener w) = reconnectAttempts w
   \<and> maxReconnectAttempts (stopListener w) = maxReconnectAttempts w"
  by (simp add: stopListener_def clearInterval_def Let_def split: option.splits)

lemma stopListener_timer:
  "heartbeatInterval w = Some h \<Longrightarrow> h \<notin> set (intervals (stopListener w))"
  by (simp add: stopListener_def clearInterval_def Let_def)

lemma stopped_stays:
  "maxReconnectAttempts w \<le> reconnectAttempts w \<Longrightarrow>
     maxReconnectAttempts ((handleReconnect cfg e ^^ n) w)
       \<le> reconnectAttempts ((handleReconnect cfg e ^^ n) w)
     \<and> connectCalls ((handleReconnect cfg e ^^ n) w) = connectCalls w
     \<and> timeouts ((handleReconnect cfg e ^^ n) w) = timeouts w"
proof (induction n)
  case 0
  then show ?case by simp
next
  case (Suc n)
  let ?v = "(handleReconnect cfg e ^^ n) w"
  from Suc have ih: "maxReconnectAttempts ?v \<le> reconnectAttempts ?v"
    and cc: "connectCalls ?v = connectCalls w" and tt: "timeouts ?v = timeouts w"
    by simp_all
  have "handleReconnect cfg e ?v = stopListener (consoleError maxAttemptsReached ?v)"
    using ih by (rule handleReconnect_at_max)
  then show ?case
    using ih cc tt by (simp add: stopListener_fields consoleError_def)
qed

text \<open>
  C6. With the attempt counter at the configured maximum (or above), \<open>handleReconnect\<close> is
  \<open>stop\<close>: the listener is not listening, its heartbeat timer is cleared and retired, and
  its channel entities are gone. No connect is attempted and no retry is scheduled, by
  this call or by any number of further calls from the state reached.
\<close>

theorem reconnect_bound:
  assumes "maxReconnectAttempts w \<le> reconnectAttempts w"
  shows "handleReconnect cfg e w = stopListener (consoleError maxAttemptsReached w)
       \<and> isListening (handleReconnect cfg e w) = False
       \<and> heartbeatInterval (handleReconnect cfg e w) = None
       \<and> (case heartbeatInterval w of
             Some h \<Rightarrow> h \<notin> set (intervals (handleReconnect cfg e w)) | None \<Rightarrow> True)
       \<and> channelEntities (handleReconnect cfg e w) = []
       \<and> connectCalls ((handleReconnect cfg e ^^ n) w) = connectCalls w
       \<and> timeouts ((handleReconnect cfg e ^^ n) w) = timeouts w"
proof -
  have a: "handleReconnect cfg e w = stopListener (consoleError maxAttemptsReached w)"
    using assms by (rule handleReconnect_at_max)
  have t: "(case heartbeatInterval w of
             Some h \<Rightarrow> h \<notin> set (intervals (handleReconnect cfg e w)) | None \<Rightarrow> True)"
  proof (cases "heartbeatInterval w")
    case None
    then show ?thesis by simp
  next
    case (Some h)
    then have "heartbeatInterval (consoleError maxAttemptsReached w) = Some h"
      by (simp add: consoleError_def)
    then have "h \<notin> set (intervals (stopListener (consoleError maxAttemptsReached w)))"
      by (rule stopListener_timer)
    with Some a show ?thesis by simp
  qed
  from a t stopped_stays [OF assms] show ?thesis
    by (simp add: stopListener_fields)
qed

lemma lost_run:
  "reconnectAttempts (heartbeatTick sampleCfg downEnv lostWorld) = 2
   \<and> maxReconnectAttempts (heartbeatTick sampleCfg downEnv lostWorld) = 2
   \<and> connectCalls (heartbeatTick sampleCfg downEnv lostWorld) = 3
   \<and> timeouts (heartbeatTick sampleCfg downEnv lostWorld) = []"
  by (simp add: heartbeatTick_def lostWorld_def initialWorld_def downEnv_def calmEnv_def
      sampleCfg_def start.simps handleReconnect.simps connect_def consoleError_def sleep_def
      stopListener_def clearInterval_def Let_def)

theorem reconnect_bound_witness:
  "maxReconnectAttempts (heartbeatTick sampleCfg downEnv lostWorld)
     \<le> reconnectAttempts (heartbeatTick sampleCfg downEnv lostWorld)
   \<and> isListening (handleReconnect sampleCfg downEnv (heartbeatTick sampleCfg downEnv lostWorld))
       = False
   \<and> connectCalls ((handleReconnect sampleCfg downEnv ^^ 4)
        (heartbeatTick sampleCfg downEnv lostWorld)) = 3
   \<and> timeouts ((handleReconnect sampleCfg downEnv ^^ 4)
        (heartbeatTick sampleCfg downEnv lostWorld)) = []"
proof -
  have h: "maxReconnectAttempts (heartbeatTick sampleCfg downEnv lostWorld)
     \<le> reconnectAttempts (heartbeatTick sampleCfg downEnv lostWorld)"
    by (simp add: lost_run)
  note r = reconnect_bound [OF h, of sampleCfg downEnv 4]
  have a: "isListening (handleReconnect sampleCfg downEnv
             (heartbeatTick sampleCfg downEnv lostWorld)) = False"
    using r by blast
  have c: "connectCalls ((handleReconnect sampleCfg downEnv ^^ 4)
             (heartbeatTick sampleCfg downEnv lostWorld))
           = connectCalls (heartbeatTick sampleCfg downEnv lostWorld)"
    using r by blast
  have t: "timeouts ((handleReconnect sampleCfg downEnv ^^ 4)
             (heartbeatTick sampleCfg downEnv lostWorld))
           = timeouts (heartbeatTick sampleCfg downEnv lostWorld)"
    using r by blast
  from h a c t show ?thesis
    by (simp only: lost_run)
qed

section \<open>Operations and the store\<close>

subsection \<open>Frame lemmas\<close>

lemma extractData_frame:
  "docId (extractData d) = docId d \<and> isNew (extractData d) = isNew d
   \<and> messageId (extractData d) = messageId d \<and> channelId (extractData d) = channelId d
   \<and> channelUsername (extractData d) = channelUsername d
   \<and> channelName (extractData d) = channelName d \<and> docText (extractData d) = docText d
   \<and> processed (extractData d) = processed d"
  by (simp add: extractData_def Let_def)

lemma messageDocOf_fields:
  "isNew (messageDocOf i tm chan kws) \<and> \<not> processed (messageDocOf i tm chan kws)
   \<and> docId (messageDocOf i tm chan kws) = i
   \<and> messageId (messageDocOf i tm chan kws) = tmId tm
   \<and> channelId (messageDocOf i tm chan kws)
       = (if truthy (tmChannelId tm) then the (tmChannelId tm) else js ''unknown'')
   \<and> channelUsername (messageDocOf i tm chan kws) = chUsername chan
   \<and> channelName (messageDocOf i tm chan kws) = chName chan
   \<and> docText (messageDocOf i tm chan kws) = tmText tm"
  by (simp add: messageDocOf_def newMessage_def)

lemma findOne_frame:
  "findOne e mid u w = (r, w1) \<Longrightarrow>
     w1 = w\<lparr>storeCalls := storeCalls w + 1\<rparr>
     \<and> (r = Inl storeError \<and> storeDown e (storeCalls w)
         \<or> r = Inr (find (\<lambda>m. messageId m = mid \<and> channelUsername m = u) (db w))
           \<and> \<not> storeDown e (storeCalls w))"
  by (auto simp: findOne_def Let_def split: if_splits)

lemma sendToTargetGroups_frame:
  "db (sendToTargetGroups e d w) = db w \<and> storeCalls (sendToTargetGroups e d w) = storeCalls w
   \<and> nextId (sendToTargetGroups e d w) = nextId w
   \<and> trace (sendToTargetGroups e d w) = trace w"
  by (simp add: sendToTargetGroups_def Let_def)

lemma connect_db: "connect e w = (r, w1) \<Longrightarrow> db w1 = db w"
  by (auto simp: connect_def consoleError_def Let_def split: if_splits)

lemma consoleError_db: "db (consoleError err w) = db w"
  by (simp add: consoleError_def)

lemma sleep_db: "db (sleep n w) = db w"
  by (simp add: sleep_def)

subsection \<open>Monotone flags\<close>

lemma flagStep_refl: "flagStep m m"
  by (simp add: flagStep_def)

lemma flagStep_trans: "flagStep a b \<Longrightarrow> flagStep b c \<Longrightarrow> flagStep a c"
  by (auto simp: flagStep_def)

lemma monotoneFlags_refl: "monotoneFlags ms ms"
  by (simp add: monotoneFlags_def list_all2_refl flagStep_refl)

lemma monotoneFlags_trans:
  assumes "monotoneFlags xs ys" and "monotoneFlags ys zs"
  shows "monotoneFlags xs zs"
proof -
  from assms have l1: "length xs \<le> length ys" and l2: "length ys \<le> length zs"
    and a: "list_all2 flagStep xs (take (length xs) ys)"
    and b: "list_all2 flagStep ys (take (length ys) zs)"
    by (simp_all add: monotoneFlags_def)
  from b have "list_all2 flagStep (take (length xs) ys) (take (length xs) (take (length ys) zs))"
    by (rule list_all2_takeI)
  with l1 have c: "list_all2 flagStep (take (length xs) ys) (take (length xs) zs)"
    by (simp add: min_def)
  have "list_all2 flagStep xs (take (length xs) zs)"
    using a c by (rule list_all2_trans [rotated]) (blast intro: flagStep_trans)
  with l1 l2 show ?thesis by (simp add: monotoneFlags_def)
qed

lemma monotoneFlags_append: "monotoneFlags ms (ms @ new)"
  by (simp add: monotoneFlags_def list_all2_refl flagStep_refl)

lemma monotoneFlags_raise:
  "monotoneFlags ms (map (\<lambda>m. if P m then m\<lparr>processed := True\<rparr> else m) ms)"
proof -
  have "list_all2 flagStep ms (map (\<lambda>m. if P m then m\<lparr>processed := True\<rparr> else m) ms)"
    by (induction ms) (auto simp: flagStep_def)
  then show ?thesis by (simp add: monotoneFlags_def)
qed

lemma save_monotone:
  assumes "isNew d \<or> processed d" and "save e d w = (r, w1)"
  shows "monotoneFlags (db w) (db w1)"
proof (cases "isNew d")
  case True
  with assms(2) show ?thesis
    by (auto simp: save_def Let_def monotoneFlags_refl monotoneFlags_append split: if_splits)
next
  case False
  with assms(1) have p: "processed d" by simp
  then have pt: "processed d = True" by simp
  have "monotoneFlags (db w)
          (map (\<lambda>m. if docId m = docId d then m\<lparr>processed := processed d\<rparr> else m) (db w))"
    unfolding pt by (rule monotoneFlags_raise)
  with False assms(2) show ?thesis
    by (auto simp: save_def Let_def monotoneFlags_refl split: if_splits)
qed

lemma findByIdAndUpdate_monotone:
  "findByIdAndUpdate e i w = (r, w1) \<Longrightarrow> monotoneFlags (db w) (db w1)"
  by (auto simp: findByIdAndUpdate_def Let_def monotoneFlags_refl monotoneFlags_raise
      split: if_splits)

lemma sendSingleMessage_monotone:
  assumes "sendSingleMessage e item w = (r, w1)"
  shows "monotoneFlags (db w) (db w1)"
proof -
  obtain c wc where c: "(if \<not> isConnected w then connect e w else (Inr (), w)) = (c, wc)"
    by (cases "if \<not> isConnected w then connect e w else (Inr (), w)")
  then have dbc: "db wc = db w"
    by (auto dest: connect_db split: if_splits)
  show ?thesis
  proof (cases c)
    case (Inl err)
    with assms c dbc show ?thesis
      by (simp add: sendSingleMessage_def consoleError_db monotoneFlags_refl del: split_paired_Ex)
        (auto simp: consoleError_db monotoneFlags_refl)
  next
    case (Inr u)
    show ?thesis
    proof (cases "netSend e (sendCalls wc)")
      case (Some err)
      with assms c dbc Inr show ?thesis
        by (auto simp: sendSingleMessage_def Let_def consoleError_db monotoneFlags_refl)
    next
      case None
      obtain r2 w2 where u: "findByIdAndUpdate e (docId (originalMessage item))
          (wc\<lparr>sendCalls := sendCalls wc + 1,
              trace := trace wc @ [Sent item]\<rparr>) = (r2, w2)"
        by (cases "findByIdAndUpdate e (docId (originalMessage item))
          (wc\<lparr>sendCalls := sendCalls wc + 1, trace := trace wc @ [Sent item]\<rparr>)")
      from findByIdAndUpdate_monotone [OF u] dbc have m: "monotoneFlags (db w) (db w2)"
        by simp
      from assms c Inr None u have "db w1 = db w2"
        by (auto simp: sendSingleMessage_def Let_def consoleError_db split: sum.splits)
      with m show ?thesis by simp
    qed
  qed
qed

lemma sendBatch_monotone: "monotoneFlags (db w) (db (sendBatch cfg e batch w))"
proof (induction batch arbitrary: w)
  case Nil
  then show ?case by (simp add: monotoneFlags_refl)
next
  case (Cons item rest)
  obtain r w1 where s: "sendSingleMessage e item w = (r, w1)"
    by (cases "sendSingleMessage e item w")
  let ?next = "(case (r, w1) of
          (Inr u, w1) \<Rightarrow>
            (let w2 = w1\<lparr>sentCount := sentCount w1 + 1\<rparr> in
             if sendDelay cfg > 0 then sleep (nat (sendDelay cfg)) w2 else w2)
        | (Inl err, w1) \<Rightarrow>
            (let w2 = consoleError err w1 in
             if includesStr (errMessage err) (js ''FLOOD_WAIT'')
             then sleep (extractFloodWaitTime (errMessage err) * 1000)
                    (w2\<lparr>sendQueue := item # sendQueue w2\<rparr>)
             else w2))"
  have d: "db ?next = db w1"
    by (cases r) (simp_all add: Let_def sleep_db consoleError_db)
  from sendSingleMessage_monotone [OF s] d have "monotoneFlags (db w) (db ?next)"
    by simp
  moreover have "monotoneFlags (db ?next) (db (sendBatch cfg e rest ?next))"
    by (rule Cons.IH)
  ultimately have "monotoneFlags (db w) (db (sendBatch cfg e rest ?next))"
    by (rule monotoneFlags_trans)
  with s show ?case by simp
qed

lemma processQueue_monotone: "monotoneFlags (db w) (db (processQueue cfg e w))"
proof (cases "length (sendQueue w) = 0")
  case True
  then show ?thesis by (simp add: processQueue_def monotoneFlags_refl)
next
  case False
  let ?w1 = "w\<lparr>isProcessingQueue := True, sendQueue := drop (nat (batchSize cfg)) (sendQueue w)\<rparr>"
  have "monotoneFlags (db ?w1) (db (sendBatch cfg e (take (nat (batchSize cfg)) (sendQueue w)) ?w1))"
    by (rule sendBatch_monotone)
  with False show ?thesis by (simp add: processQueue_def Let_def)
qed

subsection \<open>The ingestion paths keep the flags monotone\<close>

lemma processRealTimeMessage_monotone:
  "monotoneFlags (db w) (db (processRealTimeMessage cfg e tm chan kws w))"
proof -
  let ?d = "extractData (messageDocOf (nextId w) tm chan kws)"
  let ?w0 = "w\<lparr>nextId := nextId w + 1\<rparr>"
  obtain r w1 where s: "save e ?d ?w0 = (r, w1)"
    by (cases "save e ?d ?w0")
  have n: "isNew ?d \<or> processed ?d"
    by (simp add: extractData_frame messageDocOf_fields)
  from save_monotone [OF n s] have m: "monotoneFlags (db w) (db w1)"
    by simp
  show ?thesis
  proof (cases r)
    case (Inl err)
    with s m show ?thesis
      by (simp add: processRealTimeMessage_def Let_def consoleError_db)
  next
    case (Inr saved)
    with s m show ?thesis
      by (simp add: processRealTimeMessage_def Let_def sendToTargetGroups_frame)
  qed
qed

lemma processMessageTry_monotone:
  assumes "processMessageTry cfg e tm chan w = (r, w')"
  shows "monotoneFlags (db w) (db w')"
proof (cases "tmText tm = []")
  case True
  with assms show ?thesis by (simp add: processMessageTry_def monotoneFlags_refl)
next
  case False
  obtain f w1 where f: "findOne e (tmId tm) (chUsername chan) w = (f, w1)"
    by (cases "findOne e (tmId tm) (chUsername chan) w")
  from findOne_frame [OF f] have w1: "db w1 = db w" by auto
  show ?thesis
  proof (cases f)
    case (Inl err)
    with assms False f w1 show ?thesis
      by (auto simp: processMessageTry_def monotoneFlags_refl)
  next
    case (Inr found)
    show ?thesis
    proof (cases found)
      case (Some existingMessage)
      let ?q = "sendToTargetGroups e existingMessage w1"
      obtain r2 w2 where s: "save e (existingMessage\<lparr>processed := True\<rparr>) ?q = (r2, w2)"
        by (cases "save e (existingMessage\<lparr>processed := True\<rparr>) ?q")
      have "monotoneFlags (db ?q) (db w2)"
        by (rule save_monotone [OF _ s]) simp
      then have m: "monotoneFlags (db w) (db w2)"
        by (simp add: sendToTargetGroups_frame w1)
      from assms False f Inr Some s have "w' = w1 \<or> w' = w2"
        by (auto simp: processMessageTry_def split: if_splits sum.splits)
      with m w1 show ?thesis by (auto simp: monotoneFlags_refl)
    next
      case None
      let ?d = "extractData (messageDocOf (nextId w1) tm chan [js ''bonus_format''])"
      obtain r2 w2 where s: "save e ?d (w1\<lparr>nextId := nextId w1 + 1\<rparr>) = (r2, w2)"
        by (cases "save e ?d (w1\<lparr>nextId := nextId w1 + 1\<rparr>)")
      have "monotoneFlags (db (w1\<lparr>nextId := nextId w1 + 1\<rparr>)) (db w2)"
        by (rule save_monotone [OF _ s]) (simp add: extractData_frame messageDocOf_fields)
      then have m2: "monotoneFlags (db w) (db w2)"
        by (simp add: w1)
      show ?thesis
      proof (cases r2)
        case (Inl err)
        with assms False f Inr None s have "w' = w1 \<or> w' = w2"
          by (auto simp: processMessageTry_def split: if_splits)
        with m2 w1 show ?thesis by (auto simp: monotoneFlags_refl)
      next
        case (Inr messageDoc)
        let ?q = "sendToTargetGroups e messageDoc w2"
        obtain r3 w3 where s3: "save e (messageDoc\<lparr>processed := True\<rparr>) ?q = (r3, w3)"
          by (cases "save e (messageDoc\<lparr>processed := True\<rparr>) ?q")
        have "monotoneFlags (db ?q) (db w3)"
          by (rule save_monotone [OF _ s3]) simp
        then have "monotoneFlags (db w2) (db w3)"
          by (simp add: sendToTargetGroups_frame)
        with m2 have m3: "monotoneFlags (db w) (db w3)"
          by (rule monotoneFlags_trans)
        from assms False f \<open>f = Inr found\<close> None s Inr s3 have "w' = w1 \<or> w' = w2 \<or> w' = w3"
          by (auto simp: processMessageTry_def split: if_splits sum.splits)
        with m2 m3 w1 show ?thesis by (auto simp: monotoneFlags_refl)
      qed
    qed
  qed
qed

lemma processMessage_monotone:
  "monotoneFlags (db w) (db (snd (processMessage cfg e tm chan w)))"
proof -
  obtain r w' where t: "processMessageTry cfg e tm chan w = (r, w')"
    by (cases "processMessageTry cfg e tm chan w")
  from processMessageTry_monotone [OF t] t show ?thesis
    by (cases r) (simp_all add: processMessage_def consoleError_db)
qed

lemma stops_db:
  "db (stopListener w) = db w \<and> db (stopSender w) = db w \<and> db (stopService w) = db w
   \<and> db (clearQueue w) = db w"
  by (simp add: stopService_def stopListener_def stopSender_def clearQueue_def disconnect_def
      clearInterval_def Let_def split: option.splits)

lemma getChannelEntity_db: "getChannelEntity e u w = (r, w1) \<Longrightarrow> db w1 = db w"
  by (cases "isConnected w")
     (auto simp: getChannelEntity_def consoleError_db dest: connect_db split: prod.splits sum.splits)

lemma loadChannelEntitiesOf_db: "db (loadChannelEntitiesOf e chans w) = db w"
proof (induction chans arbitrary: w)
  case Nil
  then show ?case by simp
next
  case (Cons channel rest)
  obtain r w1 where g: "getChannelEntity e (chUsername channel) w = (r, w1)"
    by (cases "getChannelEntity e (chUsername channel) w")
  from getChannelEntity_db [OF g] g Cons show ?case
    by (cases r) (simp_all add: consoleError_db)
qed

lemma start_handleReconnect_db:
  "db (start cfg e w) = db w" "db (handleReconnect cfg e w) = db w"
proof (induction cfg e w and cfg e w rule: start_handleReconnect.induct)
  case (1 cfg e w)
  show ?case
  proof (cases "enabled cfg")
    case False
    then show ?thesis by (simp add: start.simps)
  next
    case True
    obtain c wc where c: "(if \<not> isConnected w then connect e w else (Inr (), w)) = (c, wc)"
      by (cases "if \<not> isConnected w then connect e w else (Inr (), w)")
    then have dbc: "db wc = db w"
      by (auto dest: connect_db split: if_splits)
    show ?thesis
    proof (cases c)
      case (Inl err)
      from "1.IH" [OF _ c [symmetric] Inl] True
      have "db (handleReconnect cfg e (consoleError err wc)) = db (consoleError err wc)"
        by simp
      with True c Inl dbc show ?thesis
        by (simp add: start.simps consoleError_db)
    next
      case (Inr u)
      with True c dbc show ?thesis
        by (simp add: start.simps startHeartbeat_def loadChannelEntities_def
            loadChannelEntitiesOf_db)
    qed
  qed
next
  case (2 cfg e w)
  show ?case
  proof (cases "maxReconnectAttempts w \<le> reconnectAttempts w")
    case True
    then show ?thesis
      by (simp add: handleReconnect.simps stops_db consoleError_db)
  next
    case False
    with "2.IH" show ?thesis
      by (simp add: handleReconnect.simps stops_db sleep_db)
  qed
qed

subsection \<open>Runs keep the flags monotone\<close>

lemma applyOp_monotone: "monotoneFlags (db w) (db (applyOp cfg e w op))"
proof (cases op)
  case (PollMessage tm chan)
  then show ?thesis by (simp add: processMessage_monotone)
next
  case (PushMessage tm chan kws)
  then show ?thesis by (simp add: processRealTimeMessage_monotone)
next
  case QueueTick
  then show ?thesis by (simp add: queueTick_def processQueue_monotone monotoneFlags_refl)
next
  case ProcessQueue
  then show ?thesis by (simp add: processQueue_monotone)
next
  case HeartbeatTick
  then show ?thesis
    by (simp add: heartbeatTick_def start_handleReconnect_db monotoneFlags_refl)
next
  case StartListener
  then show ?thesis by (simp add: start_handleReconnect_db monotoneFlags_refl)
next
  case StopService
  then show ?thesis by (simp add: stops_db monotoneFlags_refl)
qed

lemma runOps_monotone: "monotoneFlags (db w) (db (runOps cfg e ops w))"
proof (induction ops arbitrary: w)
  case Nil
  then show ?case by (simp add: runOps_def monotoneFlags_refl)
next
  case (Cons op ops)
  have "monotoneFlags (db w) (db (applyOp cfg e w op))"
    by (rule applyOp_monotone)
  moreover have "monotoneFlags (db (applyOp cfg e w op)) (db (runOps cfg e ops (applyOp cfg e w op)))"
    by (rule Cons.IH)
  ultimately show ?case
    unfolding runOps_def foldl_Cons by (rule monotoneFlags_trans)
qed

lemma monotoneFlags_nth:
  assumes "monotoneFlags ms ms'" and "i < length ms"
  shows "flagStep (ms ! i) (ms' ! i)"
proof -
  from assms have "list_all2 flagStep ms (take (length ms) ms')"
    by (simp add: monotoneFlags_def)
  from list_all2_nthD [OF this assms(2)] assms(2) show ?thesis by simp
qed

text \<open>
  C5. Over any run of operations the collection changes monotonely: every stored document
  stays in place and is either unchanged or has \<open>processed\<close> raised from false to true. So a
  document whose \<open>processed\<close> is true is the same document, still processed, after the run.
  The same holds for a single \<open>sendSingleMessage\<close>.
\<close>

theorem processed_flag_monotone:
  assumes "i < length (db w)" and "processed (db w ! i)"
  shows "monotoneFlags (db w) (db (runOps cfg e ops w))
       \<and> i < length (db (runOps cfg e ops w))
       \<and> db (runOps cfg e ops w) ! i = db w ! i
       \<and> processed (db (runOps cfg e ops w) ! i)
       \<and> monotoneFlags (db w) (db (snd (sendSingleMessage e item w)))"
proof -
  have m: "monotoneFlags (db w) (db (runOps cfg e ops w))"
    by (rule runOps_monotone)
  then have l: "i < length (db (runOps cfg e ops w))"
    using assms(1) by (simp add: monotoneFlags_def)
  from monotoneFlags_nth [OF m assms(1)] assms(2)
  have s: "db (runOps cfg e ops w) ! i = db w ! i"
    by (simp add: flagStep_def)
  have q: "monotoneFlags (db w) (db (snd (sendSingleMessage e item w)))"
    by (cases "sendSingleMessage e item w") (simp add: sendSingleMessage_monotone)
  from m l s q assms(2) show ?thesis by simp
qed

subsection \<open>Inserts and the unique index\<close>

lemma save_frame:
  "save e d w = (r, w1) \<Longrightarrow>
     sendQueue w1 = sendQueue w \<and> nextId w1 = nextId w \<and> trace w1 = trace w
     \<and> groupEntities w1 = groupEntities w \<and> clock w1 = clock w"
  by (auto simp: save_def Let_def split: if_splits)

lemma save_new_ok:
  "isNew d \<Longrightarrow> validate d \<Longrightarrow> \<not> storeDown e (storeCalls w) \<Longrightarrow> \<not> collides (db w) d \<Longrightarrow>
     save e d w = (Inr (d\<lparr>isNew := False\<rparr>),
                   w\<lparr>storeCalls := storeCalls w + 1, db := db w @ [d\<lparr>isNew := False\<rparr>]\<rparr>)"
  by (simp add: save_def Let_def)

lemma save_new_dup:
  "isNew d \<Longrightarrow> validate d \<Longrightarrow> \<not> storeDown e (storeCalls w) \<Longrightarrow> collides (db w) d \<Longrightarrow>
     save e d w = (Inl duplicateKey, w\<lparr>storeCalls := storeCalls w + 1\<rparr>)"
  by (simp add: save_def Let_def)

lemma sameKey_docKey: "sameKey a b = (docKey a = docKey b)"
  by (auto simp: sameKey_def docKey_def)

lemma docKey_extractData: "docKey (extractData d) = docKey d"
  by (simp add: docKey_def extractData_frame)

lemma docKey_messageDocOf:
  "docKey (messageDocOf i tm chan kws)
     = (if truthy (tmChannelId tm) then the (tmChannelId tm) else js ''unknown'', tmId tm)"
  by (simp add: docKey_def messageDocOf_fields)

lemma validate_extracted:
  "validate (extractData (messageDocOf i tm chan kws))
     = (chUsername chan \<noteq> [] \<and> chName chan \<noteq> [] \<and> tmText tm \<noteq> [])"
  by (cases "tmChannelId tm") (auto simp: validate_def extractData_frame messageDocOf_fields)

lemma not_collides_key: "\<not> collides ms d \<Longrightarrow> docKey d \<notin> set (map docKey ms)"
  by (induction ms) (auto simp: collides_def sameKey_docKey)

lemma known_collides: "list_ex (\<lambda>m. sameKey m d) ms \<Longrightarrow> docKey d' = docKey d \<Longrightarrow> collides ms d'"
  by (induction ms) (auto simp: collides_def sameKey_docKey)

lemma save_uniqueKeys:
  assumes "uniqueKeys (db w)" and "save e d w = (r, w1)"
  shows "uniqueKeys (db w1)"
proof -
  have k: "docKey \<circ> (\<lambda>m. if docId m = docId d then m\<lparr>processed := processed d\<rparr> else m)
             = docKey"
    by (rule ext) (simp add: docKey_def)
  have n: "\<not> collides (db w) d \<Longrightarrow> uniqueKeys (db w @ [d\<lparr>isNew := False\<rparr>])"
    using assms(1) not_collides_key [of "db w" d] by (simp add: uniqueKeys_def docKey_def)
  from assms n show ?thesis
    by (auto simp: save_def Let_def uniqueKeys_def k split: if_splits)
qed

lemma one_document_per_key:
  "distinct (map docKey ms) \<Longrightarrow> list_ex (\<lambda>m. sameKey m d) ms \<Longrightarrow>
     length (filter (\<lambda>m. sameKey m d) ms) = 1"
proof (induction ms)
  case Nil
  then show ?case by simp
next
  case (Cons m ms)
  show ?case
  proof (cases "sameKey m d")
    case True
    with Cons.prems(1) have "\<forall>x \<in> set ms. \<not> sameKey x d"
      by (auto simp: sameKey_docKey image_iff)
    then have "filter (\<lambda>m. sameKey m d) ms = []"
      by (simp add: filter_empty_conv)
    with True show ?thesis by simp
  next
    case False
    with Cons show ?thesis by simp
  qed
qed

lemma processRealTimeMessage_uniqueKeys:
  assumes "uniqueKeys (db w)"
  shows "uniqueKeys (db (processRealTimeMessage cfg e tm chan kws w))"
proof -
  let ?d = "extractData (messageDocOf (nextId w) tm chan kws)"
  let ?w0 = "w\<lparr>nextId := nextId w + 1\<rparr>"
  obtain r w1 where s: "save e ?d ?w0 = (r, w1)"
    by (cases "save e ?d ?w0")
  from assms have "uniqueKeys (db ?w0)" by simp
  from save_uniqueKeys [OF this s] have u: "uniqueKeys (db w1)" .
  show ?thesis
  proof (cases r)
    case (Inl err)
    with s u show ?thesis
      by (simp add: processRealTimeMessage_def Let_def consoleError_db)
  next
    case (Inr saved)
    with s u show ?thesis
      by (simp add: processRealTimeMessage_def Let_def sendToTargetGroups_frame)
  qed
qed

lemma processMessageTry_uniqueKeys:
  assumes "uniqueKeys (db w)" and "processMessageTry cfg e tm chan w = (r, w')"
  shows "uniqueKeys (db w')"
proof (cases "tmText tm = []")
  case True
  with assms show ?thesis by (simp add: processMessageTry_def)
next
  case False
  obtain f w1 where f: "findOne e (tmId tm) (chUsername chan) w = (f, w1)"
    by (cases "findOne e (tmId tm) (chUsername chan) w")
  from findOne_frame [OF f] have w1: "db w1 = db w" by auto
  show ?thesis
  proof (cases f)
    case (Inl err)
    with assms False f w1 show ?thesis
      by (auto simp: processMessageTry_def)
  next
    case (Inr found)
    show ?thesis
    proof (cases found)
      case (Some existingMessage)
      let ?q = "sendToTargetGroups e existingMessage w1"
      obtain r2 w2 where s: "save e (existingMessage\<lparr>processed := True\<rparr>) ?q = (r2, w2)"
        by (cases "save e (existingMessage\<lparr>processed := True\<rparr>) ?q")
      from assms(1) have "uniqueKeys (db ?q)"
        by (simp add: sendToTargetGroups_frame w1)
      from save_uniqueKeys [OF this s] have u: "uniqueKeys (db w2)" .
      from assms False f Inr Some s have "w' = w1 \<or> w' = w2"
        by (auto simp: processMessageTry_def split: if_splits sum.splits)
      with u w1 assms(1) show ?thesis by auto
    next
      case None
      let ?d = "extractData (messageDocOf (nextId w1) tm chan [js ''bonus_format''])"
      obtain r2 w2 where s: "save e ?d (w1\<lparr>nextId := nextId w1 + 1\<rparr>) = (r2, w2)"
        by (cases "save e ?d (w1\<lparr>nextId := nextId w1 + 1\<rparr>)")
      from assms(1) have "uniqueKeys (db (w1\<lparr>nextId := nextId w1 + 1\<rparr>))"
        by (simp add: w1)
      from save_uniqueKeys [OF this s] have u2: "uniqueKeys (db w2)" .
      show ?thesis
      proof (cases r2)
        case (Inl err)
        with assms False f Inr None s have "w' = w1 \<or> w' = w2"
          by (auto simp: processMessageTry_def split: if_splits)
        with u2 w1 assms(1) show ?thesis by auto
      next
        case (Inr messageDoc)
        let ?q = "sendToTargetGroups e messageDoc w2"
        obtain r3 w3 where s3: "save e (messageDoc\<lparr>processed := True\<rparr>) ?q = (r3, w3)"
          by (cases "save e (messageDoc\<lparr>processed := True\<rparr>) ?q")
        from u2 have "uniqueKeys (db ?q)"
          by (simp add: sendToTargetGroups_frame)
        from save_uniqueKeys [OF this s3] have u3: "uniqueKeys (db w3)" .
        from assms False f \<open>f = Inr found\<close> None s Inr s3 have "w' = w1 \<or> w' = w2 \<or> w' = w3"
          by (auto simp: processMessageTry_def split: if_splits sum.splits)
        with u2 u3 w1 assms(1) show ?thesis by auto
      qed
    qed
  qed
qed

lemma processMessage_uniqueKeys:
  assumes "uniqueKeys (db w)"
  shows "uniqueKeys (db (snd (processMessage cfg e tm chan w)))"
proof -
  obtain r w' where t: "processMessageTry cfg e tm chan w = (r, w')"
    by (cases "processMessageTry cfg e tm chan w")
  from processMessageTry_uniqueKeys [OF assms t] t show ?thesis
    by (cases r) (simp_all add: processMessage_def consoleError_db)
qed

subsection \<open>What the two paths do with a duplicate\<close>

lemma push_duplicate:
  assumes "list_ex (\<lambda>m. sameKey m (messageDocOf (nextId w) tm chan kws)) (db w)"
    and "tmText tm \<noteq> []" and "chUsername chan \<noteq> []" and "chName chan \<noteq> []"
    and "\<not> storeDown e (storeCalls w)"
  shows "processRealTimeMessage cfg e tm chan kws w
           = w\<lparr>nextId := nextId w + 1, storeCalls := storeCalls w + 1\<rparr>"
proof -
  let ?d = "extractData (messageDocOf (nextId w) tm chan kws)"
  let ?w0 = "w\<lparr>nextId := nextId w + 1\<rparr>"
  have c: "collides (db ?w0) ?d"
    using known_collides [OF assms(1), of ?d] by (simp add: docKey_extractData)
  have "save e ?d ?w0 = (Inl duplicateKey, ?w0\<lparr>storeCalls := storeCalls ?w0 + 1\<rparr>)"
    using assms c
    by (intro save_new_dup) (simp_all add: validate_extracted extractData_frame messageDocOf_fields)
  then show ?thesis
    by (simp add: processRealTimeMessage_def Let_def duplicateKey_def)
qed

lemma poll_duplicate:
  assumes "list_ex (\<lambda>m. sameKey m (messageDocOf (nextId w) tm chan kws)) (db w)"
    and "tmText tm \<noteq> []" and "chUsername chan \<noteq> []" and "chName chan \<noteq> []"
    and "\<not> storeDown e (storeCalls w)" and "\<not> storeDown e (storeCalls w + 1)"
    and "find (\<lambda>m. messageId m = tmId tm \<and> channelUsername m = chUsername chan) (db w) = None"
    and "bonusFormat (tmText tm)"
  shows "processMessage cfg e tm chan w
           = (Undefined, w\<lparr>storeCalls := storeCalls w + 2, nextId := nextId w + 1\<rparr>)"
proof -
  let ?w1 = "w\<lparr>storeCalls := storeCalls w + 1\<rparr>"
  let ?d = "extractData (messageDocOf (nextId ?w1) tm chan [js ''bonus_format''])"
  let ?w2 = "?w1\<lparr>nextId := nextId ?w1 + 1\<rparr>"
  have f: "findOne e (tmId tm) (chUsername chan) w = (Inr None, ?w1)"
    using assms(5,7) by (simp add: findOne_def Let_def)
  have c: "collides (db ?w2) ?d"
    using known_collides [OF assms(1), of ?d]
    by (simp add: docKey_extractData docKey_messageDocOf)
  have "save e ?d ?w2 = (Inl duplicateKey, ?w2\<lparr>storeCalls := storeCalls ?w2 + 1\<rparr>)"
    using assms c
    by (intro save_new_dup) (simp_all add: validate_extracted extractData_frame messageDocOf_fields)
  with f assms(2,8) show ?thesis
    by (simp add: processMessage_def processMessageTry_def duplicateKey_def)
qed

text \<open>
  C4. Let the unique index hold and let the store be reachable. When a document with the
  key (channel id, message id) of a source message is stored already, the insert of a new
  document for that message fails with the duplicate-key error, code 11000, and stores
  nothing; exactly one stored document has that key. The push path then returns with
  nothing stored, queued or logged. The polling path, when its lookup by username misses
  the stored document and the message is in the bonus format, reaches the same insert and
  returns \<open>undefined\<close>, again with nothing stored, queued or logged. Both paths keep the
  unique index.
\<close>

theorem duplicate_key_is_dedup:
  assumes "uniqueKeys (db w)"
    and "list_ex (\<lambda>m. sameKey m (messageDocOf (nextId w) tm chan kws)) (db w)"
    and "tmText tm \<noteq> []" and "chUsername chan \<noteq> []" and "chName chan \<noteq> []"
    and "\<not> storeDown e (storeCalls w)"
  shows "save e (extractData (messageDocOf (nextId w) tm chan kws)) w
           = (Inl duplicateKey, w\<lparr>storeCalls := storeCalls w + 1\<rparr>)
       \<and> errCode duplicateKey = Some 11000
       \<and> length (filter (\<lambda>m. sameKey m (messageDocOf (nextId w) tm chan kws)) (db w)) = 1
       \<and> processRealTimeMessage cfg e tm chan kws w
           = w\<lparr>nextId := nextId w + 1, storeCalls := storeCalls w + 1\<rparr>
       \<and> (find (\<lambda>m. messageId m = tmId tm \<and> channelUsername m = chUsername chan) (db w) = None
            \<and> bonusFormat (tmText tm) \<and> \<not> storeDown e (storeCalls w + 1)
          \<longrightarrow> processMessage cfg e tm chan w
                = (Undefined, w\<lparr>storeCalls := storeCalls w + 2, nextId := nextId w + 1\<rparr>))
       \<and> uniqueKeys (db (processRealTimeMessage cfg e tm chan kws w))
       \<and> uniqueKeys (db (snd (processMessage cfg e tm chan w)))"
proof -
  let ?d = "extractData (messageDocOf (nextId w) tm chan kws)"
  have c: "collides (db w) ?d"
    using known_collides [OF assms(2), of ?d] by (simp add: docKey_extractData)
  have a: "save e ?d w = (Inl duplicateKey, w\<lparr>storeCalls := storeCalls w + 1\<rparr>)"
    using assms c
    by (intro save_new_dup) (simp_all add: validate_extracted extractData_frame messageDocOf_fields)
  have b: "errCode duplicateKey = Some 11000"
    by (simp add: duplicateKey_def)
  have o: "length (filter (\<lambda>m. sameKey m (messageDocOf (nextId w) tm chan kws)) (db w)) = 1"
    using assms(1,2) by (intro one_document_per_key) (simp_all add: uniqueKeys_def)
  have p: "processRealTimeMessage cfg e tm chan kws w
           = w\<lparr>nextId := nextId w + 1, storeCalls := storeCalls w + 1\<rparr>"
    using assms(2-6) by (rule push_duplicate)
  have q: "find (\<lambda>m. messageId m = tmId tm \<and> channelUsername m = chUsername chan) (db w) = None
            \<and> bonusFormat (tmText tm) \<and> \<not> storeDown e (storeCalls w + 1)
          \<longrightarrow> processMessage cfg e tm chan w
                = (Undefined, w\<lparr>storeCalls := storeCalls w + 2, nextId := nextId w + 1\<rparr>)"
  proof
    assume h: "find (\<lambda>m. messageId m = tmId tm \<and> channelUsername m = chUsername chan) (db w) = None
            \<and> bonusFormat (tmText tm) \<and> \<not> storeDown e (storeCalls w + 1)"
    then have h1: "find (\<lambda>m. messageId m = tmId tm \<and> channelUsername m = chUsername chan) (db w)
                     = None"
      and h2: "bonusFormat (tmText tm)" and h3: "\<not> storeDown e (storeCalls w + 1)"
      by simp_all
    show "processMessage cfg e tm chan w
            = (Undefined, w\<lparr>storeCalls := storeCalls w + 2, nextId := nextId w + 1\<rparr>)"
      by (rule poll_duplicate [OF assms(2) assms(3) assms(4) assms(5) assms(6) h3 h1 h2])
  qed
  have u: "uniqueKeys (db (processRealTimeMessage cfg e tm chan kws w))"
    using assms(1) by (rule processRealTimeMessage_uniqueKeys)
  have v: "uniqueKeys (db (snd (processMessage cfg e tm chan w)))"
    using assms(1) by (rule processMessage_uniqueKeys)
  from a b o p q u v show ?thesis by blast
qed

subsection \<open>The sample worlds\<close>

lemma collides_extractData: "collides ms (extractData d) = collides ms d"
  by (simp add: collides_def sameKey_def extractData_frame)

lemma push_new:
  assumes "tmText tm \<noteq> []" and "chUsername chan \<noteq> []" and "chName chan \<noteq> []"
    and "\<not> storeDown e (storeCalls w)"
    and "\<not> collides (db w) (messageDocOf (nextId w) tm chan kws)"
  shows "processRealTimeMessage cfg e tm chan kws w =
     (if shouldSendToGroupsRT cfg ((extractData (messageDocOf (nextId w) tm chan kws))\<lparr>isNew := False\<rparr>)
      then sendToTargetGroups e ((extractData (messageDocOf (nextId w) tm chan kws))\<lparr>isNew := False\<rparr>)
             (w\<lparr>nextId := nextId w + 1, storeCalls := storeCalls w + 1,
                db := db w @ [(extractData (messageDocOf (nextId w) tm chan kws))\<lparr>isNew := False\<rparr>]\<rparr>)
      else w\<lparr>nextId := nextId w + 1, storeCalls := storeCalls w + 1,
              db := db w @ [(extractData (messageDocOf (nextId w) tm chan kws))\<lparr>isNew := False\<rparr>]\<rparr>)"
proof -
  let ?d = "extractData (messageDocOf (nextId w) tm chan kws)"
  let ?w0 = "w\<lparr>nextId := nextId w + 1\<rparr>"
  have "save e ?d ?w0 = (Inr (?d\<lparr>isNew := False\<rparr>),
          ?w0\<lparr>storeCalls := storeCalls ?w0 + 1, db := db ?w0 @ [?d\<lparr>isNew := False\<rparr>]\<rparr>)"
    using assms
    by (intro save_new_ok)
       (simp_all add: validate_extracted extractData_frame messageDocOf_fields collides_extractData)
  then show ?thesis
    by (simp add: processRealTimeMessage_def Let_def)
qed

lemma push_persists:
  assumes "tmText tm \<noteq> []" and "chUsername chan \<noteq> []" and "chName chan \<noteq> []"
    and "\<not> storeDown e (storeCalls w)"
    and "\<not> collides (db w) (messageDocOf (nextId w) tm chan kws)"
  shows "db (processRealTimeMessage cfg e tm chan kws w)
           = db w @ [(extractData (messageDocOf (nextId w) tm chan kws))\<lparr>isNew := False\<rparr>]"
  by (simp add: push_new [OF assms] sendToTargetGroups_frame)

lemma scan_promo:
  "scanText (js ''`PROMO2024`\<newline>http://example.com'')
     = ([js ''PROMO2024''], Some (js ''http://example.com''))"
  by (simp add: scan_defs)

lemma scan_one_line:
  "scanText (js ''`PROMO2024` http://example.com'')
     = ([js ''PROMO2024''], Some (js ''https://example.com''))"
  by (simp add: scan_defs)

lemma stored_promo:
  "(extractData (messageDocOf 0 promoTm sampleChannel [js ''bonus'']))\<lparr>isNew := False\<rparr>
     = storedPromo"
  by (simp add: extractData_def messageDocOf_def newMessage_def promoTm_def
      sampleChannel_def storedPromo_def scan_promo [simplified] Let_def)

lemma stored_one_line:
  "(extractData (messageDocOf 0 oneLineTm sampleChannel [js ''bonus'']))\<lparr>isNew := False\<rparr>
     = storedOneLine"
  by (simp add: extractData_def messageDocOf_def newMessage_def oneLineTm_def
      sampleChannel_def storedOneLine_def scan_one_line [simplified] Let_def)

lemma initialWorld_fields:
  "db initialWorld = [] \<and> nextId initialWorld = 0 \<and> storeCalls initialWorld = 0
   \<and> sendQueue initialWorld = [] \<and> trace initialWorld = []
   \<and> groupEntities initialWorld = [(1, sampleGroupData)]"
  by (simp add: initialWorld_def)

lemma pushedWorld_eq:
  "pushedWorld = initialWorld\<lparr>nextId := 1, storeCalls := 1, db := [storedPromo]\<rparr>"
proof -
  have a1: "tmText promoTm \<noteq> []"
    by (simp add: promoTm_def)
  have a2: "chUsername sampleChannel \<noteq> []" and a3: "chName sampleChannel \<noteq> []"
    by (simp_all add: sampleChannel_def)
  have a4: "\<not> storeDown calmEnv (storeCalls initialWorld)"
    by (simp add: calmEnv_def)
  have a5: "\<not> collides (db initialWorld)
              (messageDocOf (nextId initialWorld) promoTm sampleChannel [js ''bonus''])"
    by (simp add: initialWorld_fields collides_def)
  have n: "\<not> shouldSendToGroupsRT sampleCfg storedPromo"
    by (simp add: shouldSendToGroupsRT_def sampleCfg_def storedPromo_def)
  have "pushedWorld = initialWorld\<lparr>nextId := 0 + 1, storeCalls := 0 + 1, db := [] @ [storedPromo]\<rparr>"
    unfolding pushedWorld_def push_new [OF a1 a2 a3 a4 a5]
    by (simp only: initialWorld_fields stored_promo n if_False)
  then show ?thesis by simp
qed

lemma pushedOneLine_eq:
  "pushedOneLine = initialWorld\<lparr>nextId := 1, storeCalls := 1, db := [storedOneLine]\<rparr>"
proof -
  have a1: "tmText oneLineTm \<noteq> []"
    by (simp add: oneLineTm_def)
  have a2: "chUsername sampleChannel \<noteq> []" and a3: "chName sampleChannel \<noteq> []"
    by (simp_all add: sampleChannel_def)
  have a4: "\<not> storeDown calmEnv (storeCalls initialWorld)"
    by (simp add: calmEnv_def)
  have a5: "\<not> collides (db initialWorld)
              (messageDocOf (nextId initialWorld) oneLineTm sampleChannel [js ''bonus''])"
    by (simp add: initialWorld_fields collides_def)
  have n: "\<not> shouldSendToGroupsRT sampleCfg storedOneLine"
    by (simp add: shouldSendToGroupsRT_def sampleCfg_def storedOneLine_def)
  have "pushedOneLine
          = initialWorld\<lparr>nextId := 0 + 1, storeCalls := 0 + 1, db := [] @ [storedOneLine]\<rparr>"
    unfolding pushedOneLine_def push_new [OF a1 a2 a3 a4 a5]
    by (simp only: initialWorld_fields stored_one_line n if_False)
  then show ?thesis by simp
qed

lemma poll_known:
  assumes "tmText tm \<noteq> []" and "\<not> storeDown e (storeCalls w)"
    and "find (\<lambda>m. messageId m = tmId tm \<and> channelUsername m = chUsername chan) (db w)
           = Some ex"
    and "hasBonus ex" and "hasWebsite ex" and "\<not> processed ex" and "shouldSendToGroups ex"
    and "\<not> isNew ex" and "\<not> storeDown e (storeCalls w + 1)"
    and "list_ex (\<lambda>m. docId m = docId ex) (db w)"
  shows "fst (processMessage cfg e tm chan w) = BonusSent
       \<and> sendQueue (snd (processMessage cfg e tm chan w))
           = sendQueue (sendToTargetGroups e ex (w\<lparr>storeCalls := storeCalls w + 1\<rparr>))
       \<and> db (snd (processMessage cfg e tm chan w))
           = map (\<lambda>m. if docId m = docId ex then m\<lparr>processed := True\<rparr> else m) (db w)"
proof -
  let ?w1 = "w\<lparr>storeCalls := storeCalls w + 1\<rparr>"
  let ?q = "sendToTargetGroups e ex ?w1"
  have f: "findOne e (tmId tm) (chUsername chan) w = (Inr (Some ex), ?w1)"
    using assms(2,3) by (simp add: findOne_def Let_def)
  have s: "save e (ex\<lparr>processed := True\<rparr>) ?q
             = (Inr (ex\<lparr>processed := True\<rparr>),
                ?q\<lparr>storeCalls := storeCalls ?q + 1,
                   db := map (\<lambda>m. if docId m = docId ex then m\<lparr>processed := True\<rparr> else m)
                           (db ?q)\<rparr>)"
    using assms(8,9,10) by (simp add: save_def Let_def sendToTargetGroups_frame)
  from f s assms(1,4,5,6,7) show ?thesis
    by (simp add: processMessage_def processMessageTry_def sendToTargetGroups_frame)
qed

lemma queued_jobs:
  "length (sendQueue (sendToTargetGroups e d w))
     = length (sendQueue w)
       + length (filter (\<lambda>g. grActive (grConfig g)) (map snd (groupEntities w)))"
  by (auto simp: sendToTargetGroups_def Let_def filter_map)

lemma storedPromo_sendable:
  "hasBonus storedPromo \<and> hasWebsite storedPromo \<and> \<not> processed storedPromo
   \<and> \<not> isNew storedPromo \<and> shouldSendToGroups storedPromo"
  by (simp add: storedPromo_def shouldSendToGroups_def trim_def isWhiteSpace_def startsWith_def)

lemma storedOneLine_sendable:
  "hasBonus storedOneLine \<and> hasWebsite storedOneLine \<and> \<not> processed storedOneLine
   \<and> \<not> isNew storedOneLine \<and> shouldSendToGroups storedOneLine"
  by (simp add: storedOneLine_def shouldSendToGroups_def trim_def isWhiteSpace_def startsWith_def)

lemma poll_pushedWorld:
  "fst (processMessage sampleCfg calmEnv promoTm sampleChannel pushedWorld) = BonusSent
   \<and> db (snd (processMessage sampleCfg calmEnv promoTm sampleChannel pushedWorld))
       = [storedPromo\<lparr>processed := True\<rparr>]"
proof -
  have a1: "tmText promoTm \<noteq> []"
    by (simp add: promoTm_def)
  have a2: "\<not> storeDown calmEnv (storeCalls pushedWorld)"
    and a9: "\<not> storeDown calmEnv (storeCalls pushedWorld + 1)"
    by (simp_all add: calmEnv_def)
  have a3: "find (\<lambda>m. messageId m = tmId promoTm
                     \<and> channelUsername m = chUsername sampleChannel) (db pushedWorld)
              = Some storedPromo"
    by (simp add: pushedWorld_eq promoTm_def sampleChannel_def storedPromo_def)
  have a10: "list_ex (\<lambda>m. docId m = docId storedPromo) (db pushedWorld)"
    by (simp add: pushedWorld_eq)
  note s = storedPromo_sendable
  from poll_known [OF a1 a2 a3 _ _ _ _ _ a9 a10, of sampleCfg] s show ?thesis
    by (simp add: pushedWorld_eq)
qed

lemma polledWorld_db: "db polledWorld = [storedPromo\<lparr>processed := True\<rparr>]"
  by (simp add: polledWorld_def poll_pushedWorld)

theorem duplicate_key_is_dedup_witness:
  "uniqueKeys (db pushedWorld) \<and> length (db pushedWorld) = 1
   \<and> processRealTimeMessage sampleCfg calmEnv promoTm sampleChannel [js ''bonus'']
        pushedWorld = pushedWorld\<lparr>nextId := 2, storeCalls := 2\<rparr>
   \<and> processMessage sampleCfg calmEnv promoTm renamedChannel pushedWorld
        = (Undefined, pushedWorld\<lparr>storeCalls := 3, nextId := 2\<rparr>)"
proof -
  have u: "uniqueKeys (db pushedWorld)"
    by (simp add: pushedWorld_eq uniqueKeys_def)
  have k: "list_ex (\<lambda>m. sameKey m
               (messageDocOf (nextId pushedWorld) promoTm sampleChannel [js ''bonus'']))
             (db pushedWorld)"
    by (simp add: pushedWorld_eq sameKey_docKey docKey_messageDocOf)
       (simp add: docKey_def storedPromo_def promoTm_def)
  have k': "list_ex (\<lambda>m. sameKey m
               (messageDocOf (nextId pushedWorld) promoTm renamedChannel [js ''bonus'']))
             (db pushedWorld)"
    by (simp add: pushedWorld_eq sameKey_docKey docKey_messageDocOf)
       (simp add: docKey_def storedPromo_def promoTm_def)
  have t: "tmText promoTm \<noteq> []"
    by (simp add: promoTm_def)
  have c: "chUsername sampleChannel \<noteq> []" and n: "chName sampleChannel \<noteq> []"
    and c': "chUsername renamedChannel \<noteq> []" and n': "chName renamedChannel \<noteq> []"
    by (simp_all add: sampleChannel_def renamedChannel_def)
  have s: "\<not> storeDown calmEnv (storeCalls pushedWorld)"
    and s': "\<not> storeDown calmEnv (storeCalls pushedWorld + 1)"
    by (simp_all add: calmEnv_def)
  have f: "find (\<lambda>m. messageId m = tmId promoTm
                    \<and> channelUsername m = chUsername renamedChannel) (db pushedWorld) = None"
    by (simp add: pushedWorld_eq storedPromo_def renamedChannel_def sampleChannel_def)
  have b: "bonusFormat (tmText promoTm)"
    by (simp add: bonusFormat_def promoTm_def scan_defs)
  have push: "processRealTimeMessage sampleCfg calmEnv promoTm sampleChannel [js ''bonus'']
        pushedWorld = pushedWorld\<lparr>nextId := nextId pushedWorld + 1,
                                  storeCalls := storeCalls pushedWorld + 1\<rparr>"
    using duplicate_key_is_dedup [OF u k t c n s, of sampleCfg] by blast
  have poll: "processMessage sampleCfg calmEnv promoTm renamedChannel pushedWorld
        = (Undefined, pushedWorld\<lparr>storeCalls := storeCalls pushedWorld + 2,
                                   nextId := nextId pushedWorld + 1\<rparr>)"
    using duplicate_key_is_dedup [OF u k' t c' n' s, of sampleCfg] f b s' by blast
  have ids: "nextId pushedWorld = 1 \<and> storeCalls pushedWorld = 1 \<and> length (db pushedWorld) = 1"
    by (simp add: pushedWorld_eq)
  from u push poll ids show ?thesis by simp
qed

theorem processed_flag_monotone_witness:
  "0 < length (db polledWorld) \<and> processed (db polledWorld ! 0)
   \<and> processed (db (runOps sampleCfg calmEnv
        [QueueTick, PushMessage promoTm sampleChannel [js ''bonus''],
         PollMessage promoTm sampleChannel, StopService] polledWorld) ! 0)"
proof -
  have l: "0 < length (db polledWorld)" and p: "processed (db polledWorld ! 0)"
    by (simp_all add: polledWorld_db)
  from processed_flag_monotone [OF l p] l p show ?thesis by blast
qed

lemma bonusFormat_iff:
  "bonusFormat t =
     (2 \<le> length (nonEmptyLines (trim t)) \<and> length (nonEmptyLines (trim t)) \<le> 5
      \<and> list_ex isUrlLine (nonEmptyLines (trim t)))"
  by (auto simp: bonusFormat_def Let_def)

lemma handleNewMessage_drops:
  "tmText tm = [] \<or> \<not> truthy (tmChannelId tm)
     \<or> map_of (channelEntities w) (the (tmChannelId tm)) = None
     \<or> (\<exists>cd. map_of (channelEntities w) (the (tmChannelId tm)) = Some cd
              \<and> matchKeywords e (tmText tm) (chKeywords (chConfig cd)) = [])
   \<Longrightarrow> handleNewMessage cfg e tm w = w"
  by (auto simp: handleNewMessage_def Let_def)

lemma handleNewMessage_accepts:
  assumes "tmText tm \<noteq> []" and "tmChannelId tm = Some cid" and "cid \<noteq> []"
    and "map_of (channelEntities w) cid = Some cd"
    and "matchKeywords e (tmText tm) (chKeywords (chConfig cd)) \<noteq> []"
  shows "handleNewMessage cfg e tm w
           = processRealTimeMessage cfg e tm (chConfig cd)
               (matchKeywords e (tmText tm) (chKeywords (chConfig cd))) w"
  using assms by (simp add: handleNewMessage_def Let_def)

text \<open>
  C8, as the code has it. In the polling path, a source message that the lookup does not
  find in the store, and whose text does not split into 2 to 5 non-empty lines or has no
  line with \<open>http\<close>, \<open>.com\<close>, \<open>.net\<close> or \<open>.org\<close>, is skipped: \<open>processMessage\<close> returns
  \<open>undefined\<close>, stores nothing, builds no document (so extracts nothing) and queues
  nothing. The push path has no such check: the same message, when \<open>handleNewMessage\<close>
  accepts it (it has text, its channel is monitored, a keyword of the channel matches),
  is stored, given that its document is valid (the channel's names are not empty, its
  date is a valid \<open>Date\<close>), the store is reachable and its key is free.
\<close>

theorem poll_format_prefilter:
  assumes "find (\<lambda>m. messageId m = tmId tm \<and> channelUsername m = chUsername chan) (db w) = None"
    and "length (nonEmptyLines (trim (tmText tm))) < 2 \<or> 5 < length (nonEmptyLines (trim (tmText tm)))
         \<or> \<not> list_ex isUrlLine (nonEmptyLines (trim (tmText tm)))"
  shows "fst (processMessage cfg e tm chan w) = Undefined
       \<and> db (snd (processMessage cfg e tm chan w)) = db w
       \<and> sendQueue (snd (processMessage cfg e tm chan w)) = sendQueue w
       \<and> nextId (snd (processMessage cfg e tm chan w)) = nextId w
       \<and> (tmText tm \<noteq> [] \<and> tmChannelId tm = Some cid \<and> cid \<noteq> []
            \<and> map_of (channelEntities w) cid = Some cd
            \<and> matchKeywords e (tmText tm) (chKeywords (chConfig cd)) \<noteq> []
            \<and> chUsername (chConfig cd) \<noteq> [] \<and> chName (chConfig cd) \<noteq> []
            \<and> validDate (tmDate tm * 1000)
            \<and> \<not> storeDown e (storeCalls w)
            \<and> \<not> collides (db w)
                 (messageDocOf (nextId w) tm (chConfig cd)
                    (matchKeywords e (tmText tm) (chKeywords (chConfig cd))))
          \<longrightarrow> db (handleNewMessage cfg e tm w)
                = db w @ [(extractData (messageDocOf (nextId w) tm (chConfig cd)
                             (matchKeywords e (tmText tm) (chKeywords (chConfig cd)))))
                           \<lparr>isNew := False\<rparr>])"
proof -
  from assms(2) have nb: "\<not> bonusFormat (tmText tm)"
    by (auto simp: bonusFormat_iff)
  obtain f w1 where f: "findOne e (tmId tm) (chUsername chan) w = (f, w1)"
    by (cases "findOne e (tmId tm) (chUsername chan) w")
  from findOne_frame [OF f] assms(1)
  have w1: "w1 = w\<lparr>storeCalls := storeCalls w + 1\<rparr>"
    and r: "f = Inl storeError \<or> f = Inr None"
    by auto
  have t: "processMessageTry cfg e tm chan w = (Inr Undefined, w)
         \<or> processMessageTry cfg e tm chan w = (Inr Undefined, w1)
         \<or> processMessageTry cfg e tm chan w = (Inl storeError, w1)"
    using f r nb by (auto simp: processMessageTry_def)
  have poll: "fst (processMessage cfg e tm chan w) = Undefined
       \<and> db (snd (processMessage cfg e tm chan w)) = db w
       \<and> sendQueue (snd (processMessage cfg e tm chan w)) = sendQueue w
       \<and> nextId (snd (processMessage cfg e tm chan w)) = nextId w"
    using t w1 by (auto simp: processMessage_def consoleError_def storeError_def)
  have push: "tmText tm \<noteq> [] \<and> tmChannelId tm = Some cid \<and> cid \<noteq> []
            \<and> map_of (channelEntities w) cid = Some cd
            \<and> matchKeywords e (tmText tm) (chKeywords (chConfig cd)) \<noteq> []
            \<and> chUsername (chConfig cd) \<noteq> [] \<and> chName (chConfig cd) \<noteq> []
            \<and> validDate (tmDate tm * 1000)
            \<and> \<not> storeDown e (storeCalls w)
            \<and> \<not> collides (db w)
                 (messageDocOf (nextId w) tm (chConfig cd)
                    (matchKeywords e (tmText tm) (chKeywords (chConfig cd))))
          \<longrightarrow> db (handleNewMessage cfg e tm w)
                = db w @ [(extractData (messageDocOf (nextId w) tm (chConfig cd)
                             (matchKeywords e (tmText tm) (chKeywords (chConfig cd)))))
                           \<lparr>isNew := False\<rparr>]"
  proof
    assume h: "tmText tm \<noteq> [] \<and> tmChannelId tm = Some cid \<and> cid \<noteq> []
            \<and> map_of (channelEntities w) cid = Some cd
            \<and> matchKeywords e (tmText tm) (chKeywords (chConfig cd)) \<noteq> []
            \<and> chUsername (chConfig cd) \<noteq> [] \<and> chName (chConfig cd) \<noteq> []
            \<and> validDate (tmDate tm * 1000)
            \<and> \<not> storeDown e (storeCalls w)
            \<and> \<not> collides (db w)
                 (messageDocOf (nextId w) tm (chConfig cd)
                    (matchKeywords e (tmText tm) (chKeywords (chConfig cd))))"
    then have h1: "tmText tm \<noteq> []" and h2: "tmChannelId tm = Some cid" and h3: "cid \<noteq> []"
      and h4: "map_of (channelEntities w) cid = Some cd"
      and h5: "matchKeywords e (tmText tm) (chKeywords (chConfig cd)) \<noteq> []"
      and h6: "chUsername (chConfig cd) \<noteq> []" and h7: "chName (chConfig cd) \<noteq> []"
      and h9: "\<not> storeDown e (storeCalls w)"
      and h10: "\<not> collides (db w)
                 (messageDocOf (nextId w) tm (chConfig cd)
                    (matchKeywords e (tmText tm) (chKeywords (chConfig cd))))"
      by simp_all
    have a: "handleNewMessage cfg e tm w
           = processRealTimeMessage cfg e tm (chConfig cd)
               (matchKeywords e (tmText tm) (chKeywords (chConfig cd))) w"
      by (rule handleNewMessage_accepts [OF h1 h2 h3 h4 h5])
    show "db (handleNewMessage cfg e tm w)
                = db w @ [(extractData (messageDocOf (nextId w) tm (chConfig cd)
                             (matchKeywords e (tmText tm) (chKeywords (chConfig cd)))))
                           \<lparr>isNew := False\<rparr>]"
      unfolding a by (rule push_persists [OF h1 h6 h7 h9 h10])
  qed
  from poll push show ?thesis by blast
qed

lemma oneLine_not_format: "\<not> bonusFormat (tmText oneLineTm)"
  by (simp add: bonusFormat_def oneLineTm_def scan_defs)

lemma oneLine_keywords:
  "matchKeywords calmEnv (tmText oneLineTm) [js ''PROMO''] = [js ''PROMO'']"
  by (simp add: matchKeywords_def calmEnv_def oneLineTm_def toLowerAscii_def startsWith_def)

lemma listeningWorld_fields:
  "db listeningWorld = [] \<and> nextId listeningWorld = 0 \<and> storeCalls listeningWorld = 0
   \<and> map_of (channelEntities listeningWorld) (js ''100'')
       = Some \<lparr>chEntity = js ''100'', chConfig = sampleChannel\<lparr>chKeywords := [js ''PROMO'']\<rparr>\<rparr>"
  by (simp add: listeningWorld_def initialWorld_def)

lemma stored_one_line_pushed:
  "(extractData (messageDocOf 0 oneLineTm (sampleChannel\<lparr>chKeywords := [js ''PROMO'']\<rparr>)
       [js ''PROMO'']))\<lparr>isNew := False\<rparr>
     = storedOneLine\<lparr>matchedKeywords := [js ''PROMO'']\<rparr>"
  by (simp add: extractData_def messageDocOf_def newMessage_def oneLineTm_def
      sampleChannel_def storedOneLine_def scan_one_line [simplified] Let_def)

theorem poll_format_prefilter_witness:
  "length (nonEmptyLines (trim (tmText oneLineTm))) = 1
   \<and> fst (processMessage sampleCfg calmEnv oneLineTm sampleChannel listeningWorld) = Undefined
   \<and> db (snd (processMessage sampleCfg calmEnv oneLineTm sampleChannel listeningWorld)) = []
   \<and> sendQueue (snd (processMessage sampleCfg calmEnv oneLineTm sampleChannel listeningWorld)) = []
   \<and> db (handleNewMessage sampleCfg calmEnv oneLineTm listeningWorld)
       = [storedOneLine\<lparr>matchedKeywords := [js ''PROMO'']\<rparr>]"
proof -
  let ?cd = "\<lparr>chEntity = js ''100'', chConfig = sampleChannel\<lparr>chKeywords := [js ''PROMO'']\<rparr>\<rparr>"
  have cfgs: "chConfig ?cd = sampleChannel\<lparr>chKeywords := [js ''PROMO'']\<rparr>"
    and kws: "chKeywords (sampleChannel\<lparr>chKeywords := [js ''PROMO'']\<rparr>) = [js ''PROMO'']"
    by simp_all
  have a: "find (\<lambda>m. messageId m = tmId oneLineTm \<and> channelUsername m = chUsername sampleChannel)
             (db listeningWorld) = None"
    by (simp add: listeningWorld_fields)
  have l: "length (nonEmptyLines (trim (tmText oneLineTm))) = 1"
    by (simp add: oneLineTm_def scan_defs)
  then have b: "length (nonEmptyLines (trim (tmText oneLineTm))) < 2
         \<or> 5 < length (nonEmptyLines (trim (tmText oneLineTm)))
         \<or> \<not> list_ex isUrlLine (nonEmptyLines (trim (tmText oneLineTm)))"
    by simp
  have c1: "tmText oneLineTm \<noteq> []" and c2: "tmChannelId oneLineTm = Some (js ''100'')"
    and c3: "js ''100'' \<noteq> []" and c8: "validDate (tmDate oneLineTm * 1000)"
    by (simp_all add: oneLineTm_def validDate_def)
  have c4: "map_of (channelEntities listeningWorld) (js ''100'') = Some ?cd"
    by (simp only: listeningWorld_fields)
  have c5: "matchKeywords calmEnv (tmText oneLineTm) (chKeywords (chConfig ?cd)) \<noteq> []"
    by (simp only: cfgs kws oneLine_keywords) simp
  have c6: "chUsername (chConfig ?cd) \<noteq> []" and c7: "chName (chConfig ?cd) \<noteq> []"
    by (simp_all add: sampleChannel_def)
  have c9: "\<not> storeDown calmEnv (storeCalls listeningWorld)"
    by (simp add: calmEnv_def)
  have c10: "\<not> collides (db listeningWorld)
                 (messageDocOf (nextId listeningWorld) oneLineTm (chConfig ?cd)
                    (matchKeywords calmEnv (tmText oneLineTm) (chKeywords (chConfig ?cd))))"
    by (simp add: listeningWorld_fields collides_def)
  note r = poll_format_prefilter [OF a b, of sampleCfg calmEnv "js ''100''" ?cd]
  have p1: "fst (processMessage sampleCfg calmEnv oneLineTm sampleChannel listeningWorld) = Undefined"
    and p2: "db (snd (processMessage sampleCfg calmEnv oneLineTm sampleChannel listeningWorld))
               = db listeningWorld"
    and p3: "sendQueue (snd (processMessage sampleCfg calmEnv oneLineTm sampleChannel listeningWorld))
               = sendQueue listeningWorld"
    using r by blast+
  have p4: "db (handleNewMessage sampleCfg calmEnv oneLineTm listeningWorld)
           = db listeningWorld @ [(extractData (messageDocOf (nextId listeningWorld) oneLineTm
                 (chConfig ?cd)
                 (matchKeywords calmEnv (tmText oneLineTm) (chKeywords (chConfig ?cd)))))
               \<lparr>isNew := False\<rparr>]"
    using r c1 c2 c3 c4 c5 c6 c7 c8 c9 c10 by blast
  have q: "sendQueue listeningWorld = []"
    by (simp add: listeningWorld_def initialWorld_def)
  from l p1 p2 p3 p4 show ?thesis
    by (simp only: cfgs kws oneLine_keywords listeningWorld_fields stored_one_line_pushed
          append_Nil q)
qed

text \<open>
  C8 as stated fails for a message the store already holds. The one-line message is not in
  the bonus format; once the push path has stored it (unsent, with code and website), the
  polling path finds it, never reaches the format check, and queues it.
\<close>

theorem known_message_bypasses_format_counterexample:
  "\<not> bonusFormat (tmText oneLineTm)
   \<and> sendQueue pushedOneLine = []
   \<and> fst (processMessage sampleCfg calmEnv oneLineTm sampleChannel pushedOneLine) = BonusSent
   \<and> length (sendQueue (snd (processMessage sampleCfg calmEnv oneLineTm sampleChannel
        pushedOneLine))) = 1"
proof -
  have a1: "tmText oneLineTm \<noteq> []"
    by (simp add: oneLineTm_def)
  have a2: "\<not> storeDown calmEnv (storeCalls pushedOneLine)"
    and a9: "\<not> storeDown calmEnv (storeCalls pushedOneLine + 1)"
    by (simp_all add: calmEnv_def)
  have a3: "find (\<lambda>m. messageId m = tmId oneLineTm
                     \<and> channelUsername m = chUsername sampleChannel) (db pushedOneLine)
              = Some storedOneLine"
    by (simp add: pushedOneLine_eq oneLineTm_def sampleChannel_def storedOneLine_def)
  have a10: "list_ex (\<lambda>m. docId m = docId storedOneLine) (db pushedOneLine)"
    by (simp add: pushedOneLine_eq)
  note s = storedOneLine_sendable
  have q0: "sendQueue pushedOneLine = []"
    by (simp add: pushedOneLine_eq initialWorld_fields)
  have g: "length (filter (\<lambda>g. grActive (grConfig g)) (map snd (groupEntities pushedOneLine))) = 1"
    by (simp add: pushedOneLine_eq initialWorld_fields sampleGroupData_def sampleGroup_def)
  from poll_known [OF a1 a2 a3 _ _ _ _ _ a9 a10, of sampleCfg] s
  have r: "fst (processMessage sampleCfg calmEnv oneLineTm sampleChannel pushedOneLine) = BonusSent"
    and q: "sendQueue (snd (processMessage sampleCfg calmEnv oneLineTm sampleChannel pushedOneLine))
       = sendQueue (sendToTargetGroups calmEnv storedOneLine
                      (pushedOneLine\<lparr>storeCalls := storeCalls pushedOneLine + 1\<rparr>))"
    by simp_all
  have "length (sendQueue (snd (processMessage sampleCfg calmEnv oneLineTm sampleChannel
          pushedOneLine))) = 1"
    unfolding q queued_jobs using q0 g by simp
  with oneLine_not_format q0 r show ?thesis by simp
qed

end
